theory Spec2Isabelle
  imports Complex_Main "HOL-Library.Log_Nat"
begin

section \<open>Floating-point values of the simulator\<close>

text \<open>
  \<open>one_factor_LIBOR_Market_Model\<close> (\<open>forward_rate_models/Libor_Market_Model.ipynb\<close>)
  computes on NumPy \<open>float64\<close> scalars. A NumPy scalar operation never raises: a division
  by zero or the square root of a negative number yields \<open>inf\<close> or \<open>nan\<close> (with a
  \<open>RuntimeWarning\<close>) and the computation goes on. The values are therefore the finite
  reals together with the two infinities and NaN.

  Every operation takes the rounding function \<open>r\<close> that maps the exact real result to the
  stored one. Two roundings are used below: \<open>exact\<close> (no rounding: real arithmetic) and
  \<open>binary64\<close> (round to nearest, ties to even, 53 significant bits; for \<open>exp\<close> and the power
  this is the correctly rounded value, which the C library approximates). Neither models
  underflow to subnormals or the sign of zero, and overflow is modelled only where it raises an
  exception, at the quotient \<open>maturity / time_step\<close>; every zero divisor that the
  program can produce (\<open>1 + x\<close> with \<open>x = -1\<close>, and the integer \<open>N = 0\<close>) is \<open>+0.0\<close>, so a
  nonzero finite value divided by zero gets the sign of the dividend.
\<close>

datatype npfloat = Fin real | PInf | NInf | NaN

type_synonym rounding = "real \<Rightarrow> real"

definition exact :: rounding where
  "exact x = x"

definition pow2 :: "int \<Rightarrow> real" where
  "pow2 e = (if 0 \<le> e then 2 ^ nat e else 1 / 2 ^ nat (- e))"

definition expo :: "real \<Rightarrow> int" where
  \<comment> \<open>for \<open>0 < x\<close>: the \<open>e\<close> with \<open>2 ^ e \<le> x < 2 ^ (e + 1)\<close>\<close>
  "expo x =
     (if 1 \<le> x then bitlen \<lfloor>x\<rfloor> - 1
      else (let e' = bitlen \<lfloor>1 / x\<rfloor> - 1
            in if x = pow2 (- e') then - e' else - e' - 1))"

definition binary64 :: rounding where
  "binary64 x =
     (if x = 0 then 0
      else (let a = \<bar>x\<bar>;
                u = pow2 (expo a - 52);
                m = a / u;
                f = \<lfloor>m\<rfloor>;
                d = m - of_int f;
                n = (if d < 1 / 2 then f
                     else if 1 / 2 < d then f + 1
                     else if even f then f else f + 1)
            in sgn x * of_int n * u))"

fun fneg :: "npfloat \<Rightarrow> npfloat" where
  "fneg (Fin a) = Fin (- a)"
| "fneg PInf = NInf"
| "fneg NInf = PInf"
| "fneg NaN = NaN"

fun fadd :: "rounding \<Rightarrow> npfloat \<Rightarrow> npfloat \<Rightarrow> npfloat" where
  "fadd r (Fin a) (Fin b) = Fin (r (a + b))"
| "fadd r (Fin a) PInf = PInf"
| "fadd r (Fin a) NInf = NInf"
| "fadd r PInf (Fin b) = PInf"
| "fadd r PInf PInf = PInf"
| "fadd r NInf (Fin b) = NInf"
| "fadd r NInf NInf = NInf"
| "fadd r PInf NInf = NaN"
| "fadd r NInf PInf = NaN"
| "fadd r NaN y = NaN"
| "fadd r x NaN = NaN"

definition fsub :: "rounding \<Rightarrow> npfloat \<Rightarrow> npfloat \<Rightarrow> npfloat" where
  "fsub r x y = fadd r x (fneg y)"

fun fmul :: "rounding \<Rightarrow> npfloat \<Rightarrow> npfloat \<Rightarrow> npfloat" where
  "fmul r (Fin a) (Fin b) = Fin (r (a * b))"
| "fmul r (Fin a) PInf = (if a = 0 then NaN else if 0 < a then PInf else NInf)"
| "fmul r (Fin a) NInf = (if a = 0 then NaN else if 0 < a then NInf else PInf)"
| "fmul r PInf (Fin b) = (if b = 0 then NaN else if 0 < b then PInf else NInf)"
| "fmul r NInf (Fin b) = (if b = 0 then NaN else if 0 < b then NInf else PInf)"
| "fmul r PInf PInf = PInf"
| "fmul r PInf NInf = NInf"
| "fmul r NInf PInf = NInf"
| "fmul r NInf NInf = PInf"
| "fmul r NaN y = NaN"
| "fmul r x NaN = NaN"

fun fdiv :: "rounding \<Rightarrow> npfloat \<Rightarrow> npfloat \<Rightarrow> npfloat" where
  "fdiv r (Fin a) (Fin b) =
     (if b = 0 then (if a = 0 then NaN else if 0 < a then PInf else NInf)
      else Fin (r (a / b)))"
| "fdiv r (Fin a) PInf = Fin 0"
| "fdiv r (Fin a) NInf = Fin 0"
| "fdiv r PInf (Fin b) = (if 0 \<le> b then PInf else NInf)"
| "fdiv r NInf (Fin b) = (if 0 \<le> b then NInf else PInf)"
| "fdiv r PInf PInf = NaN"
| "fdiv r PInf NInf = NaN"
| "fdiv r NInf PInf = NaN"
| "fdiv r NInf NInf = NaN"
| "fdiv r NaN y = NaN"
| "fdiv r x NaN = NaN"

fun fpow :: "rounding \<Rightarrow> npfloat \<Rightarrow> nat \<Rightarrow> npfloat" where
  "fpow r x 0 = Fin 1"
| "fpow r (Fin a) (Suc n) = Fin (r (a ^ Suc n))"
| "fpow r PInf (Suc n) = PInf"
| "fpow r NInf (Suc n) = (if even (Suc n) then PInf else NInf)"
| "fpow r NaN (Suc n) = NaN"

fun fexp :: "rounding \<Rightarrow> npfloat \<Rightarrow> npfloat" where
  "fexp r (Fin a) = Fin (r (exp a))"
| "fexp r PInf = PInf"
| "fexp r NInf = Fin 0"
| "fexp r NaN = NaN"

fun fsqrt :: "rounding \<Rightarrow> npfloat \<Rightarrow> npfloat" where
  "fsqrt r (Fin a) = (if a < 0 then NaN else Fin (r (sqrt a)))"
| "fsqrt r PInf = PInf"
| "fsqrt r NInf = NaN"
| "fsqrt r NaN = NaN"

section \<open>Arrays\<close>

text \<open>
  A one-dimensional array is a list, a two-dimensional array a list of rows.
  \<open>np.zeros((m, n))\<close> is \<open>zeros2 m n\<close>; \<open>A[k][j]\<close> is \<open>mget A k j\<close> and the assignment
  \<open>A[k][j] = v\<close> is \<open>mset A k j v\<close>. The index expressions of the program are sums and
  differences of loop counters that stay inside the array bounds once the two length
  checks have passed (lemma \<open>indices_in_range\<close> below), so no access raises
  \<open>IndexError\<close> and none is negative, where Python would count from the end.
\<close>

type_synonym matrix = "npfloat list list"

definition zeros2 :: "nat \<Rightarrow> nat \<Rightarrow> matrix" where
  "zeros2 m n = replicate m (replicate n (Fin 0))"

definition mget :: "matrix \<Rightarrow> nat \<Rightarrow> nat \<Rightarrow> npfloat" where
  "mget A k j = A ! k ! j"

definition mset :: "matrix \<Rightarrow> nat \<Rightarrow> nat \<Rightarrow> npfloat \<Rightarrow> matrix" where
  "mset A k j v = A[k := (A ! k)[j := v]]"

definition madd :: "rounding \<Rightarrow> matrix \<Rightarrow> matrix \<Rightarrow> matrix" where
  \<comment> \<open>\<open>A += B\<close> on arrays of the same shape\<close>
  "madd r A B = map2 (map2 (fadd r)) A B"

definition mdiv :: "rounding \<Rightarrow> matrix \<Rightarrow> npfloat \<Rightarrow> matrix" where
  \<comment> \<open>\<open>A / c\<close> for a scalar \<open>c\<close>\<close>
  "mdiv r A c = map (map (\<lambda>x. fdiv r x c)) A"

section \<open>The simulator\<close>

text \<open>
  The arguments are taken as the notebook passes them: \<open>time_step\<close> and \<open>maturity\<close> are
  finite Python floats, \<open>zero_curve\<close> and \<open>forward_rate_volatilities\<close> are NumPy arrays of
  finite doubles, \<open>N\<close> is a Python integer that NumPy converts to a finite double. The exceptions that the function can raise are the values
  of \<open>error\<close>: the \<open>ZeroDivisionError\<close> of the Python division \<open>maturity / time_step\<close>, the
  \<open>OverflowError\<close> of \<open>int\<close> when that quotient overflows to an infinity, the
  \<open>ValueError\<close> of each length check, and the \<open>ValueError\<close> of \<open>np.zeros\<close> and \<open>np.full\<close> for
  a negative dimension, which arises exactly when \<open>steps - 1 < 0\<close>. The time grid \<open>t\<close> is filled
  but never read, and is left out. The function returns the averaged matrix; the state in
  which it leaves the generator is dropped.
\<close>

datatype error = ZeroDivisionError | OverflowError | ValueError string

definition max_float :: real where
  \<comment> \<open>the largest finite double, \<open>sys.float_info.max\<close>\<close>
  "max_float = 2 ^ 1024 - 2 ^ 971"

definition py_int :: "real \<Rightarrow> int" where
  \<comment> \<open>Python's \<open>int(x)\<close> on a float: truncation toward zero\<close>
  "py_int q = (if 0 \<le> q then \<lfloor>q\<rfloor> else \<lceil>q\<rceil>)"

definition steps_of :: "rounding \<Rightarrow> real \<Rightarrow> real \<Rightarrow> error + int" where
  \<comment> \<open>\<open>steps = int(maturity / time_step) + 1\<close>, on Python floats: the division raises for a
      zero divisor and yields an infinity when the rounded quotient is beyond the largest
      double, and \<open>int\<close> raises \<open>OverflowError\<close> on an infinity\<close>
  "steps_of r time_step maturity =
     (if time_step = 0 then Inl ZeroDivisionError
      else (let q = r (maturity / time_step)
            in if max_float < \<bar>q\<bar> then Inl OverflowError
               else Inr (py_int q + 1)))"

definition time_steps :: "nat \<Rightarrow> real \<Rightarrow> npfloat list" where
  \<comment> \<open>\<open>Delta = np.full((steps - 1), time_step)\<close>\<close>
  "time_steps steps time_step = replicate (steps - 1) (Fin time_step)"

definition discount_factors :: "rounding \<Rightarrow> real list \<Rightarrow> nat \<Rightarrow> npfloat list" where
  \<comment> \<open>\<open>B_0 = np.zeros(steps); for i in range(steps): B_0[i] = 1 / (1 + zero_curve[i]) ** (i + 1)\<close>\<close>
  "discount_factors r zero_curve steps =
     fold (\<lambda>i B. B[i := fdiv r (Fin 1) (fpow r (fadd r (Fin 1) (Fin (zero_curve ! i))) (i + 1))])
       [0..<steps] (replicate steps (Fin 0))"

definition initial_forward_rates :: "rounding \<Rightarrow> npfloat list \<Rightarrow> npfloat list \<Rightarrow> nat \<Rightarrow> matrix" where
  \<comment> \<open>\<open>forward_rate_from_zero\<close>: column 0 filled from the discount factors\<close>
  "initial_forward_rates r Delta B_0 steps =
     fold (\<lambda>i M. mset M i 0
             (fmul r (fdiv r (Fin 1) (Delta ! i))
                     (fsub r (fdiv r (B_0 ! i) (B_0 ! (i + 1))) (Fin 1))))
       [0..<steps - 1] (zeros2 (steps - 1) (steps - 1))"

definition drift_term ::
  "rounding \<Rightarrow> npfloat list \<Rightarrow> real list \<Rightarrow> matrix \<Rightarrow> nat \<Rightarrow> nat \<Rightarrow> nat \<Rightarrow> npfloat" where
  \<comment> \<open>the summand of \<open>sum1\<close> for the index \<open>i\<close>\<close>
  "drift_term r Delta vols F k j i =
     fdiv r
       (fmul r (fmul r (fmul r (Delta ! i) (mget F i j)) (Fin (vols ! (i - j - 1))))
               (Fin (vols ! (k - j - 1))))
       (fadd r (Fin 1) (fmul r (Delta ! i) (mget F i j)))"

definition drift ::
  "rounding \<Rightarrow> npfloat list \<Rightarrow> real list \<Rightarrow> matrix \<Rightarrow> nat \<Rightarrow> nat \<Rightarrow> npfloat" where
  \<comment> \<open>\<open>sum1 = 0; for i in range(j + 1, k + 1): sum1 += ...\<close>\<close>
  "drift r Delta vols F k j =
     fold (\<lambda>i sum1. fadd r sum1 (drift_term r Delta vols F k j i)) [j + 1..<k + 1] (Fin 0)"

definition evolve ::
  "rounding \<Rightarrow> npfloat list \<Rightarrow> real list \<Rightarrow> nat \<Rightarrow> nat \<Rightarrow> npfloat \<Rightarrow> real \<Rightarrow> npfloat \<Rightarrow> npfloat" where
  \<comment> \<open>the right-hand side of the assignment to \<open>forward_rate[k][j + 1]\<close>, given the old
      rate \<open>f\<close>, the drift \<open>sum1\<close> and the draw \<open>e\<close>\<close>
  "evolve r Delta vols k j sum1 e f =
     fmul r f
       (fexp r
          (fadd r
             (fmul r (fsub r sum1 (fdiv r (fpow r (Fin (vols ! (k - j - 1))) 2) (Fin 2)))
                     (Delta ! j))
             (fmul r (fmul r (Fin (vols ! (k - j - 1))) (Fin e)) (fsqrt r (Delta ! j)))))"

text \<open>
  \<open>np.random.standard_normal()\<close> reads and advances the global generator. The generator
  is the sequence \<open>draws\<close> of the numbers it will return, and the state is the number \<open>c\<close>
  of draws made so far: a call returns \<open>draws c\<close> and leaves \<open>c + 1\<close>.
\<close>

definition const_draws :: "real \<Rightarrow> nat \<Rightarrow> real" where
  \<comment> \<open>a generator that returns the same number at every call\<close>
  "const_draws e n = e"

definition update_rate ::
  "rounding \<Rightarrow> (nat \<Rightarrow> real) \<Rightarrow> npfloat list \<Rightarrow> real list \<Rightarrow> nat \<Rightarrow> nat \<Rightarrow> matrix \<times> nat
     \<Rightarrow> matrix \<times> nat" where
  \<comment> \<open>the body of the loop over \<open>j\<close>\<close>
  "update_rate r draws Delta vols k j st =
     (case st of (F, c) \<Rightarrow>
        (let sum1 = drift r Delta vols F k j;
             e = draws c
         in (mset F k (j + 1) (evolve r Delta vols k j sum1 e (mget F k j)), c + 1)))"

definition evolve_tenor ::
  "rounding \<Rightarrow> (nat \<Rightarrow> real) \<Rightarrow> npfloat list \<Rightarrow> real list \<Rightarrow> nat \<Rightarrow> matrix \<times> nat
     \<Rightarrow> matrix \<times> nat" where
  \<comment> \<open>\<open>for j in range(k): ...\<close>\<close>
  "evolve_tenor r draws Delta vols k st = fold (update_rate r draws Delta vols k) [0..<k] st"

definition copy_column0 :: "matrix \<Rightarrow> nat \<Rightarrow> matrix \<Rightarrow> matrix" where
  \<comment> \<open>\<open>for i in range(steps - 1): forward_rate[i][0] = forward_rate_from_zero[i][0]\<close>\<close>
  "copy_column0 F0 steps F = fold (\<lambda>i F. mset F i 0 (mget F0 i 0)) [0..<steps - 1] F"

definition path_loops ::
  "rounding \<Rightarrow> (nat \<Rightarrow> real) \<Rightarrow> npfloat list \<Rightarrow> real list \<Rightarrow> matrix \<Rightarrow> nat
     \<Rightarrow> matrix \<times> nat \<Rightarrow> matrix \<times> nat" where
  \<comment> \<open>the two loop nests that fill the path's matrix \<open>forward_rate\<close> once it is allocated:
      the copy of column 0, then \<open>for k in range(1, steps - 1): for j in range(k): ...\<close>\<close>
  "path_loops r draws Delta vols F0 steps st =
     (case st of (forward_rate, c) \<Rightarrow>
        fold (evolve_tenor r draws Delta vols) [1..<steps - 1]
          (copy_column0 F0 steps forward_rate, c))"

definition simulate_path ::
  "rounding \<Rightarrow> (nat \<Rightarrow> real) \<Rightarrow> npfloat list \<Rightarrow> real list \<Rightarrow> matrix \<Rightarrow> nat \<Rightarrow> nat
     \<Rightarrow> matrix \<times> nat" where
  \<comment> \<open>one pass of the body of \<open>for n in range(N)\<close>, up to the accumulation:
      \<open>forward_rate = np.zeros((steps - 1, steps - 1))\<close> and the loops; the result is the
      path's matrix and the generator state it leaves\<close>
  "simulate_path r draws Delta vols F0 steps c =
     path_loops r draws Delta vols F0 steps (zeros2 (steps - 1) (steps - 1), c)"

definition monte_carlo ::
  "rounding \<Rightarrow> (nat \<Rightarrow> real) \<Rightarrow> npfloat list \<Rightarrow> real list \<Rightarrow> matrix \<Rightarrow> nat \<Rightarrow> int
     \<Rightarrow> matrix \<times> nat" where
  \<comment> \<open>\<open>forward_rate_mc = np.zeros(...); for n in range(N): ...; forward_rate_mc += forward_rate\<close>\<close>
  "monte_carlo r draws Delta vols F0 steps N =
     fold (\<lambda>n st. case st of (mc, c) \<Rightarrow>
             (case simulate_path r draws Delta vols F0 steps c of
                (forward_rate, c') \<Rightarrow> (madd r mc forward_rate, c')))
       [0..<nat N] (zeros2 (steps - 1) (steps - 1), 0)"

definition one_factor_LIBOR_Market_Model ::
  "rounding \<Rightarrow> (nat \<Rightarrow> real) \<Rightarrow> real \<Rightarrow> real \<Rightarrow> real list \<Rightarrow> real list \<Rightarrow> int \<Rightarrow> error + matrix" where
  "one_factor_LIBOR_Market_Model r draws time_step maturity zero_curve forward_rate_volatilities N =
     (case steps_of r time_step maturity of
        Inl err \<Rightarrow> Inl err
      | Inr steps \<Rightarrow>
          if int (length zero_curve) < steps
          then Inl (ValueError ''zero_curve must have at least `steps` elements.'')
          else if int (length forward_rate_volatilities) < steps - 1
          then Inl (ValueError ''forward_rate_volatilities must have at least `steps - 1` elements.'')
          else if steps - 1 < 0
          then Inl (ValueError ''negative dimensions are not allowed'')
          else
            (let s = nat steps;
                 Delta = time_steps s time_step;
                 B_0 = discount_factors r zero_curve s;
                 forward_rate_from_zero = initial_forward_rates r Delta B_0 s;
                 forward_rate_mc = fst (monte_carlo r draws Delta forward_rate_volatilities
                                          forward_rate_from_zero s N)
             in Inr (mdiv r forward_rate_mc (Fin (r (of_int N))))))"

section \<open>Auxiliary notions for the proofs\<close>

text \<open>
  \<open>shape m n A\<close>: the array \<open>A\<close> has \<open>m\<close> rows of \<open>n\<close> entries. \<open>tri k\<close> is the number of
  updates that the loop nest makes before it reaches row \<open>k\<close>, that is
  \<open>0 + 1 + ... + (k - 1)\<close>. \<open>written K J k j\<close>: the update of \<open>forward_rate[k][j + 1]\<close> has
  been made when the loops stand at row \<open>K\<close>, column \<open>J\<close>. \<open>path_inv\<close> is the loop
  invariant of the two nested loops, started on the matrix \<open>A\<close> with the generator at \<open>c0\<close>.
  \<open>path_sum ... p k j\<close> is what \<open>forward_rate_mc[k][j]\<close> holds after \<open>p\<close> paths.
\<close>

definition sign_preserving :: "rounding \<Rightarrow> bool" where
  \<comment> \<open>the rounded value has the sign of the exact one; \<open>exact\<close> and \<open>binary64\<close> are so\<close>
  "sign_preserving r \<longleftrightarrow> r 0 = 0 \<and> (\<forall>x. 0 < x \<longrightarrow> 0 < r x) \<and> (\<forall>x. x < 0 \<longrightarrow> r x < 0)"


definition shape :: "nat \<Rightarrow> nat \<Rightarrow> matrix \<Rightarrow> bool" where
  "shape m n A \<longleftrightarrow> length A = m \<and> (\<forall>k < m. length (A ! k) = n)"

fun tri :: "nat \<Rightarrow> nat" where
  "tri 0 = 0"
| "tri (Suc k) = tri k + k"

definition written :: "nat \<Rightarrow> nat \<Rightarrow> nat \<Rightarrow> nat \<Rightarrow> bool" where
  "written K J k j \<longleftrightarrow> j < k \<and> (k < K \<or> (k = K \<and> j < J))"

definition path_inv ::
  "rounding \<Rightarrow> (nat \<Rightarrow> real) \<Rightarrow> npfloat list \<Rightarrow> real list \<Rightarrow> nat \<Rightarrow> matrix \<Rightarrow> nat
     \<Rightarrow> nat \<Rightarrow> nat \<Rightarrow> matrix \<times> nat \<Rightarrow> bool" where
  "path_inv r draws Delta vols n A c0 K J st \<longleftrightarrow>
     (case st of (F, c) \<Rightarrow>
        shape n n F \<and> c = c0 + tri K + J \<and>
        (\<forall>k j. written K J k j \<longrightarrow>
           mget F k (j + 1) =
             evolve r Delta vols k j (drift r Delta vols F k j) (draws (c0 + tri k + j)) (mget F k j)) \<and>
        (\<forall>k j. \<not> (0 < j \<and> written K J k (j - 1)) \<longrightarrow> mget F k j = mget A k j))"

fun path_sum ::
  "rounding \<Rightarrow> (nat \<Rightarrow> real) \<Rightarrow> npfloat list \<Rightarrow> real list \<Rightarrow> matrix \<Rightarrow> nat \<Rightarrow> nat \<Rightarrow> nat \<Rightarrow> nat
     \<Rightarrow> npfloat" where
  "path_sum r draws Delta vols F0 steps 0 k j = Fin 0"
| "path_sum r draws Delta vols F0 steps (Suc p) k j =
     fadd r (path_sum r draws Delta vols F0 steps p k j)
       (mget (fst (simulate_path r draws Delta vols F0 steps (p * tri (steps - 1)))) k j)"

section \<open>Arrays and loops\<close>

lemma shape_zeros2: "shape m n (zeros2 m n)"
  by (simp add: shape_def zeros2_def)

lemma shape_mset: "shape m n A \<Longrightarrow> shape m n (mset A k j v)"
  by (cases "k < length A") (auto simp: shape_def mset_def nth_list_update list_update_beyond)

lemma mget_mset_same:
  "shape m n A \<Longrightarrow> k < m \<Longrightarrow> j < n \<Longrightarrow> mget (mset A k j v) k j = v"
  by (simp add: shape_def mget_def mset_def)

lemma mget_mset_other:
  "k' \<noteq> k \<or> j' \<noteq> j \<Longrightarrow> mget (mset A k j v) k' j' = mget A k' j'"
  by (cases "k < length A"; cases "k' = k") (auto simp: mget_def mset_def list_update_beyond)

lemma mget_zeros2: "k < m \<Longrightarrow> j < n \<Longrightarrow> mget (zeros2 m n) k j = Fin 0"
  by (simp add: mget_def zeros2_def)

lemma fold_upt_invariant:
  assumes "I a s" and "a \<le> b"
    and "\<And>i s. a \<le> i \<Longrightarrow> i < b \<Longrightarrow> I i s \<Longrightarrow> I (Suc i) (f i s)"
  shows "I b (fold f [a..<b] s)"
  using assms(2,3)
proof (induction b)
  case 0
  with assms(1) show ?case by simp
next
  case (Suc b)
  show ?case
  proof (cases "a = Suc b")
    case True
    with assms(1) show ?thesis by simp
  next
    case False
    with Suc.prems have ab: "a \<le> b" by simp
    have "I b (fold f [a..<b] s)"
      using Suc.IH[OF ab] Suc.prems(2) by simp
    then have "I (Suc b) (f b (fold f [a..<b] s))"
      using Suc.prems(2)[of b] ab by simp
    with ab show ?thesis by simp
  qed
qed

lemma fill_column0:
  assumes "shape n n A"
  shows "shape n n (fold (\<lambda>i M. mset M i 0 (g i)) [0..<n] A)
       \<and> (\<forall>i < n. mget (fold (\<lambda>i M. mset M i 0 (g i)) [0..<n] A) i 0 = g i)
       \<and> (\<forall>k j. j \<noteq> 0 \<longrightarrow> mget (fold (\<lambda>i M. mset M i 0 (g i)) [0..<n] A) k j = mget A k j)"
proof (rule fold_upt_invariant[where I = "\<lambda>i M. shape n n M \<and> (\<forall>i' < i. mget M i' 0 = g i')
       \<and> (\<forall>k j. j \<noteq> 0 \<longrightarrow> mget M k j = mget A k j)"])
  show "shape n n A \<and> (\<forall>i'<0. mget A i' 0 = g i') \<and> (\<forall>k j. j \<noteq> 0 \<longrightarrow> mget A k j = mget A k j)"
    using assms by simp
  show "0 \<le> n" by simp
  fix i M
  assume i: "0 \<le> i" "i < n"
    and I: "shape n n M \<and> (\<forall>i'<i. mget M i' 0 = g i') \<and> (\<forall>k j. j \<noteq> 0 \<longrightarrow> mget M k j = mget A k j)"
  have "mget (mset M i 0 (g i)) i' 0 = g i'" if "i' < Suc i" for i'
  proof (cases "i' = i")
    case True
    with I i show ?thesis by (simp add: mget_mset_same[where m = n and n = n])
  next
    case False
    with that I show ?thesis by (simp add: mget_mset_other)
  qed
  moreover have "mget (mset M i 0 (g i)) k j = mget A k j" if "j \<noteq> 0" for k j
    using that I by (simp add: mget_mset_other)
  ultimately show "shape n n (mset M i 0 (g i)) \<and> (\<forall>i' < Suc i. mget (mset M i 0 (g i)) i' 0 = g i')
       \<and> (\<forall>k j. j \<noteq> 0 \<longrightarrow> mget (mset M i 0 (g i)) k j = mget A k j)"
    using I by (simp add: shape_mset)
qed

lemma drift_cong:
  assumes "\<And>i. j + 1 \<le> i \<Longrightarrow> i \<le> k \<Longrightarrow> mget F' i j = mget F i j"
  shows "drift r Delta vols F' k j = drift r Delta vols F k j"
  unfolding drift_def
  by (rule fold_cong) (auto simp: drift_term_def assms)

lemma fill_array:
  assumes "n \<le> length B"
  shows "length (fold (\<lambda>i B. B[i := g i]) [0..<n] B) = length B
       \<and> (\<forall>i < n. fold (\<lambda>i B. B[i := g i]) [0..<n] B ! i = g i)"
  by (rule fold_upt_invariant[where I = "\<lambda>n B'. length B' = length B \<and> (\<forall>i < n. B' ! i = g i)"])
     (use assms in \<open>auto simp: nth_list_update less_Suc_eq\<close>)

lemma discount_factors_nth:
  "i < steps \<Longrightarrow>
   discount_factors r zero_curve steps ! i =
     fdiv r (Fin 1) (fpow r (fadd r (Fin 1) (Fin (zero_curve ! i))) (i + 1))"
  using fill_array[of steps "replicate steps (Fin 0)"
      "\<lambda>i. fdiv r (Fin 1) (fpow r (fadd r (Fin 1) (Fin (zero_curve ! i))) (i + 1))"]
  by (simp add: discount_factors_def)

lemma initial_forward_rates_result:
  "shape (steps - 1) (steps - 1) (initial_forward_rates r Delta B_0 steps)"
  "i < steps - 1 \<Longrightarrow>
     mget (initial_forward_rates r Delta B_0 steps) i 0 =
       fmul r (fdiv r (Fin 1) (Delta ! i)) (fsub r (fdiv r (B_0 ! i) (B_0 ! (i + 1))) (Fin 1))"
  using fill_column0[OF shape_zeros2, of "steps - 1"
      "\<lambda>i. fmul r (fdiv r (Fin 1) (Delta ! i)) (fsub r (fdiv r (B_0 ! i) (B_0 ! (i + 1))) (Fin 1))"]
  by (simp_all add: initial_forward_rates_def)

section \<open>One path\<close>

lemma path_inv_step:
  assumes inv: "path_inv r draws Delta vols n A c0 K J st" and JK: "J < K" and Kn: "K < n"
  shows "path_inv r draws Delta vols n A c0 K (Suc J) (update_rate r draws Delta vols K J st)"
proof -
  obtain F c where st: "st = (F, c)" by (cases st)
  define v where "v = evolve r Delta vols K J (drift r Delta vols F K J) (draws c) (mget F K J)"
  define F' where "F' = mset F K (J + 1) v"
  have upd: "update_rate r draws Delta vols K J st = (F', c + 1)"
    by (simp add: update_rate_def st F'_def v_def Let_def)
  from inv have sh: "shape n n F" and c: "c = c0 + tri K + J"
    and rec: "\<And>k j. written K J k j \<Longrightarrow> mget F k (j + 1) =
             evolve r Delta vols k j (drift r Delta vols F k j) (draws (c0 + tri k + j)) (mget F k j)"
    and frame: "\<And>k j. \<not> (0 < j \<and> written K J k (j - 1)) \<Longrightarrow> mget F k j = mget A k j"
    by (auto simp: path_inv_def st)
  have other: "mget F' k j = mget F k j" if "k \<noteq> K \<or> j \<noteq> J + 1" for k j
    using that by (simp add: F'_def mget_mset_other)
  have same: "mget F' K (J + 1) = v"
    using sh JK Kn by (simp add: F'_def mget_mset_same[where m = n and n = n])
  have dr: "drift r Delta vols F' k j = drift r Delta vols F k j" if "k \<le> K" "j \<noteq> J + 1 \<or> k < K" for k j
    by (rule drift_cong, rule other) (use that in auto)
  have rec': "mget F' k (j + 1) =
             evolve r Delta vols k j (drift r Delta vols F' k j) (draws (c0 + tri k + j)) (mget F' k j)"
    if w: "written K (Suc J) k j" for k j
  proof (cases "k = K \<and> j = J")
    case True
    then show ?thesis
      using same dr[of K J] other[of K J] by (simp add: v_def c)
  next
    case False
    with w have w': "written K J k j" by (auto simp: written_def)
    then have "k \<le> K" "j \<noteq> J + 1 \<or> k < K" "k \<noteq> K \<or> j + 1 \<noteq> J + 1" "k \<noteq> K \<or> j \<noteq> J + 1"
      by (auto simp: written_def)
    then show ?thesis
      using rec[OF w'] dr[of k j] other[of k "j + 1"] other[of k j] by simp
  qed
  have frame': "mget F' k j = mget A k j" if "\<not> (0 < j \<and> written K (Suc J) k (j - 1))" for k j
  proof -
    from that JK have "k \<noteq> K \<or> j \<noteq> J + 1" and "\<not> (0 < j \<and> written K J k (j - 1))"
      by (auto simp: written_def)
    then show ?thesis using other[of k j] frame[of j k] by simp
  qed
  show ?thesis
    unfolding upd path_inv_def using sh c rec' frame' by (simp add: F'_def shape_mset)
qed

lemma path_inv_row_done:
  "path_inv r draws Delta vols n A c0 K K st \<Longrightarrow> path_inv r draws Delta vols n A c0 (Suc K) 0 st"
proof -
  have "written (Suc K) 0 k j = written K K k j" for k j
    by (auto simp: written_def)
  then show "path_inv r draws Delta vols n A c0 K K st \<Longrightarrow> ?thesis"
    by (cases st) (simp add: path_inv_def add.assoc)
qed

lemma path_inv_evolve_tenor:
  assumes "path_inv r draws Delta vols n A c0 K 0 st" and "K < n"
  shows "path_inv r draws Delta vols n A c0 (Suc K) 0 (evolve_tenor r draws Delta vols K st)"
proof -
  have "path_inv r draws Delta vols n A c0 K K (fold (update_rate r draws Delta vols K) [0..<K] st)"
    by (rule fold_upt_invariant[where I = "\<lambda>J. path_inv r draws Delta vols n A c0 K J"])
       (use assms in \<open>auto intro: path_inv_step\<close>)
  then show ?thesis
    by (simp add: evolve_tenor_def path_inv_row_done)
qed

lemma path_inv_init:
  "shape n n A \<Longrightarrow> path_inv r draws Delta vols n A c0 1 0 (A, c0)"
  by (simp add: path_inv_def written_def)

lemma path_inv_loops:
  assumes "shape n n A" and "1 \<le> n"
  shows "path_inv r draws Delta vols n A c0 n 0 (fold (evolve_tenor r draws Delta vols) [1..<n] (A, c0))"
  by (rule fold_upt_invariant[where I = "\<lambda>K. path_inv r draws Delta vols n A c0 K 0"])
     (use assms path_inv_init[of n A] in \<open>auto intro: path_inv_evolve_tenor\<close>)

lemma path_loops_result:
  assumes sh: "shape (steps - 1) (steps - 1) F_init"
    and res: "path_loops r draws Delta vols F0 steps (F_init, c0) = (F, c)"
  shows "shape (steps - 1) (steps - 1) F"
    and "c = c0 + tri (steps - 1)"
    and "\<And>k j. j < k \<Longrightarrow> k < steps - 1 \<Longrightarrow>
           mget F k (j + 1) =
             evolve r Delta vols k j (drift r Delta vols F k j) (draws (c0 + tri k + j)) (mget F k j)"
    and "\<And>i. i < steps - 1 \<Longrightarrow> mget F i 0 = mget F0 i 0"
    and "\<And>k j. k < j \<Longrightarrow> mget F k j = mget F_init k j"
proof -
  define n where "n = steps - 1"
  define A where "A = copy_column0 F0 steps F_init"
  have A: "shape n n A" "\<And>i. i < n \<Longrightarrow> mget A i 0 = mget F0 i 0"
    "\<And>k j. j \<noteq> 0 \<Longrightarrow> mget A k j = mget F_init k j"
    using fill_column0[of n F_init "\<lambda>i. mget F0 i 0"] sh
    by (simp_all add: A_def copy_column0_def n_def)
  have res': "fold (evolve_tenor r draws Delta vols) [1..<n] (A, c0) = (F, c)"
    using res by (simp add: path_loops_def A_def n_def)
  have all: "shape n n F \<and> c = c0 + tri n
     \<and> (\<forall>k j. j < k \<and> k < n \<longrightarrow> mget F k (j + 1) =
             evolve r Delta vols k j (drift r Delta vols F k j) (draws (c0 + tri k + j)) (mget F k j))
     \<and> (\<forall>k j. j = 0 \<or> k < j \<longrightarrow> mget F k j = mget A k j)"
  proof (cases "1 \<le> n")
    case True
    from path_inv_loops[OF A(1) True, of r draws Delta vols c0]
    have inv: "shape n n F" "c = c0 + tri n"
      "\<And>k j. written n 0 k j \<Longrightarrow> mget F k (j + 1) =
             evolve r Delta vols k j (drift r Delta vols F k j) (draws (c0 + tri k + j)) (mget F k j)"
      "\<And>k j. \<not> (0 < j \<and> written n 0 k (j - 1)) \<Longrightarrow> mget F k j = mget A k j"
      unfolding res' path_inv_def by auto
    have "mget F k (j + 1) =
             evolve r Delta vols k j (drift r Delta vols F k j) (draws (c0 + tri k + j)) (mget F k j)"
      if "j < k" "k < n" for k j
      by (rule inv(3)) (use that in \<open>simp add: written_def\<close>)
    moreover have "mget F k j = mget A k j" if "j = 0 \<or> k < j" for k j
      by (rule inv(4)) (use that in \<open>auto simp: written_def\<close>)
    ultimately show ?thesis
      using inv(1,2) by simp
  next
    case False
    then have "n = 0" by simp
    with res' A(1) show ?thesis by auto
  qed
  from all show "shape (steps - 1) (steps - 1) F" "c = c0 + tri (steps - 1)"
    by (simp_all add: n_def)
  from all show "\<And>k j. j < k \<Longrightarrow> k < steps - 1 \<Longrightarrow>
           mget F k (j + 1) =
             evolve r Delta vols k j (drift r Delta vols F k j) (draws (c0 + tri k + j)) (mget F k j)"
    by (simp add: n_def)
  from all A(2) show "\<And>i. i < steps - 1 \<Longrightarrow> mget F i 0 = mget F0 i 0"
    by (simp add: n_def)
  from all A(3) show "\<And>k j. k < j \<Longrightarrow> mget F k j = mget F_init k j"
    by simp
qed

lemma shape_madd:
  "shape m n A \<Longrightarrow> shape m n B \<Longrightarrow> shape m n (madd r A B)"
  by (simp add: shape_def madd_def)

lemma mget_madd:
  "shape m n A \<Longrightarrow> shape m n B \<Longrightarrow> k < m \<Longrightarrow> j < n \<Longrightarrow>
   mget (madd r A B) k j = fadd r (mget A k j) (mget B k j)"
  by (simp add: shape_def madd_def mget_def)

lemma shape_mdiv: "shape m n A \<Longrightarrow> shape m n (mdiv r A c)"
  by (simp add: shape_def mdiv_def)

lemma mget_mdiv:
  "shape m n A \<Longrightarrow> k < m \<Longrightarrow> j < n \<Longrightarrow> mget (mdiv r A c) k j = fdiv r (mget A k j) c"
  by (simp add: shape_def mdiv_def mget_def)

lemma monte_carlo_step:
  assumes mc: "shape (steps - 1) (steps - 1) mc"
    and cells: "\<And>k j. k < steps - 1 \<Longrightarrow> j < steps - 1 \<Longrightarrow>
           mget mc k j = path_sum r draws Delta vols F0 steps p k j"
    and sp: "simulate_path r draws Delta vols F0 steps (p * tri (steps - 1)) = (F, c')"
  shows "shape (steps - 1) (steps - 1) (madd r mc F)"
    and "c' = Suc p * tri (steps - 1)"
    and "\<And>k j. k < steps - 1 \<Longrightarrow> j < steps - 1 \<Longrightarrow>
           mget (madd r mc F) k j = path_sum r draws Delta vols F0 steps (Suc p) k j"
proof -
  have pl: "path_loops r draws Delta vols F0 steps (zeros2 (steps - 1) (steps - 1), p * tri (steps - 1)) = (F, c')"
    using sp by (simp add: simulate_path_def)
  have F: "shape (steps - 1) (steps - 1) F" "c' = p * tri (steps - 1) + tri (steps - 1)"
    using path_loops_result(1,2)[OF shape_zeros2 pl] by simp_all
  show "shape (steps - 1) (steps - 1) (madd r mc F)"
    using mc F(1) by (rule shape_madd)
  show "c' = Suc p * tri (steps - 1)"
    using F(2) by simp
  fix k j
  assume kj: "k < steps - 1" "j < steps - 1"
  have "mget (madd r mc F) k j = fadd r (mget mc k j) (mget F k j)"
    using mc F(1) kj by (rule mget_madd)
  also have "mget mc k j = path_sum r draws Delta vols F0 steps p k j"
    using kj by (rule cells)
  also have "mget F k j = mget (fst (simulate_path r draws Delta vols F0 steps (p * tri (steps - 1)))) k j"
    by (simp only: sp fst_conv)
  finally show "mget (madd r mc F) k j = path_sum r draws Delta vols F0 steps (Suc p) k j"
    by (simp only: path_sum.simps)
qed

lemma monte_carlo_result:
  assumes "monte_carlo r draws Delta vols F0 steps N = (mc, c)"
  shows "shape (steps - 1) (steps - 1) mc"
    and "c = nat N * tri (steps - 1)"
    and "\<And>k j. k < steps - 1 \<Longrightarrow> j < steps - 1 \<Longrightarrow>
           mget mc k j = path_sum r draws Delta vols F0 steps (nat N) k j"
proof -
  define body where "body = (\<lambda>(p::nat) st. case st of (mc, c) \<Rightarrow>
             (case simulate_path r draws Delta vols F0 steps c of
                (forward_rate, c') \<Rightarrow> (madd r mc forward_rate, c')))"
  define I where "I = (\<lambda>p st. shape (steps - 1) (steps - 1) (fst st) \<and> snd st = p * tri (steps - 1) \<and>
      (\<forall>k j. k < steps - 1 \<and> j < steps - 1 \<longrightarrow>
          mget (fst st) k j = path_sum r draws Delta vols F0 steps p k j))"
  have step: "I (Suc p) (body p st)" if "I p st" for p st
  proof -
    obtain F c' where sp: "simulate_path r draws Delta vols F0 steps (p * tri (steps - 1)) = (F, c')"
      by (cases "simulate_path r draws Delta vols F0 steps (p * tri (steps - 1))")
    from that have st: "shape (steps - 1) (steps - 1) (fst st)" "snd st = p * tri (steps - 1)"
      "\<And>k j. k < steps - 1 \<Longrightarrow> j < steps - 1 \<Longrightarrow>
          mget (fst st) k j = path_sum r draws Delta vols F0 steps p k j"
      unfolding I_def by blast+
    have body: "body p st = (madd r (fst st) F, c')"
      unfolding body_def by (cases st) (use st(2) sp in simp)
    show ?thesis
      unfolding body I_def fst_conv snd_conv
      using monte_carlo_step[OF st(1) st(3) sp] by blast
  qed
  have init: "I 0 (zeros2 (steps - 1) (steps - 1), 0)"
    unfolding I_def by (simp add: shape_zeros2 mget_zeros2)
  have "I (nat N) (fold body [0..<nat N] (zeros2 (steps - 1) (steps - 1), 0))"
    by (rule fold_upt_invariant[where I = I, OF init]) (simp_all add: step)
  then have "I (nat N) (mc, c)"
    using assms unfolding monte_carlo_def body_def by simp
  then show "shape (steps - 1) (steps - 1) mc" "c = nat N * tri (steps - 1)"
    "\<And>k j. k < steps - 1 \<Longrightarrow> j < steps - 1 \<Longrightarrow>
           mget mc k j = path_sum r draws Delta vols F0 steps (nat N) k j"
    unfolding I_def by simp_all
qed

section \<open>The entry point\<close>

lemma model_result:
  assumes "steps_of r time_step maturity = Inr (int s)" and "1 \<le> s"
    and "s \<le> length zero_curve" and "s - 1 \<le> length vols"
  shows "one_factor_LIBOR_Market_Model r draws time_step maturity zero_curve vols N =
    Inr (mdiv r (fst (monte_carlo r draws (time_steps s time_step) vols
              (initial_forward_rates r (time_steps s time_step)
                 (discount_factors r zero_curve s) s) s N))
           (Fin (r (of_int N))))"
  using assms by (simp add: one_factor_LIBOR_Market_Model_def Let_def)

lemma model_cells:
  assumes "steps_of r time_step maturity = Inr (int s)" and "1 \<le> s"
    and "s \<le> length zero_curve" and "s - 1 \<le> length vols"
  shows "\<exists>out. one_factor_LIBOR_Market_Model r draws time_step maturity zero_curve vols N = Inr out
           \<and> shape (s - 1) (s - 1) out
           \<and> (\<forall>k j. k < s - 1 \<and> j < s - 1 \<longrightarrow>
                 mget out k j =
                   fdiv r (path_sum r draws (time_steps s time_step) vols
                             (initial_forward_rates r (time_steps s time_step)
                                (discount_factors r zero_curve s) s) s (nat N) k j)
                          (Fin (r (of_int N))))"
proof -
  define Delta where "Delta = time_steps s time_step"
  define F0 where "F0 = initial_forward_rates r Delta (discount_factors r zero_curve s) s"
  obtain mc c where mc: "monte_carlo r draws Delta vols F0 s N = (mc, c)"
    by (cases "monte_carlo r draws Delta vols F0 s N")
  note res = monte_carlo_result[OF mc]
  have "one_factor_LIBOR_Market_Model r draws time_step maturity zero_curve vols N =
          Inr (mdiv r mc (Fin (r (of_int N))))"
    using model_result[OF assms, of draws N] by (simp add: Delta_def[symmetric] F0_def[symmetric] mc)
  moreover have "shape (s - 1) (s - 1) (mdiv r mc (Fin (r (of_int N))))"
    using res(1) by (rule shape_mdiv)
  moreover have "mget (mdiv r mc (Fin (r (of_int N)))) k j =
      fdiv r (path_sum r draws Delta vols F0 s (nat N) k j) (Fin (r (of_int N)))"
    if "k < s - 1" "j < s - 1" for k j
    using mget_mdiv[OF res(1) that] res(3)[OF that] by simp
  ultimately show ?thesis
    unfolding Delta_def F0_def by blast
qed

section \<open>The sign of a rounded value\<close>

lemma pow2_pos: "0 < pow2 e"
  by (simp add: pow2_def)

lemma pow2_powi: "pow2 e = 2 powi e"
  by (simp add: pow2_def power_int_def power_one_over)

lemma pow2_diff: "pow2 (e - 52) * 2 ^ 52 = pow2 e"
proof -
  have "(2::real) powi (e - 52) = 2 powi e / 2 powi 52"
    by (rule power_int_diff) simp
  then show ?thesis
    unfolding pow2_powi by simp
qed

lemma pow2_expo_le:
  assumes "0 < x"
  shows "pow2 (expo x) \<le> x"
proof (cases "1 \<le> x")
  case True
  then have n: "0 < \<lfloor>x\<rfloor>" by simp
  have "2 ^ nat (bitlen \<lfloor>x\<rfloor> - 1) \<le> \<lfloor>x\<rfloor>"
    using bitlen_bounds[OF n] by simp
  then have "(2::real) ^ nat (bitlen \<lfloor>x\<rfloor> - 1) \<le> of_int \<lfloor>x\<rfloor>"
    by (metis of_int_le_iff of_int_numeral of_int_power)
  also have "\<dots> \<le> x" by simp
  finally have le: "(2::real) ^ nat (bitlen \<lfloor>x\<rfloor> - 1) \<le> x" .
  have "1 \<le> bitlen \<lfloor>x\<rfloor>"
    using n by (simp add: bitlen_alt_def)
  with True le show ?thesis
    by (simp add: expo_def pow2_def)
next
  case False
  define n where "n = \<lfloor>1 / x\<rfloor>"
  define e' where "e' = bitlen n - 1"
  from False assms have "1 < 1 / x" by simp
  then have n: "0 < n" unfolding n_def by linarith
  have e': "0 \<le> e'"
    using n by (simp add: e'_def bitlen_alt_def)
  have "n < 2 ^ nat (bitlen n)"
    using bitlen_bounds[OF n] by simp
  then have "n + 1 \<le> 2 ^ nat (bitlen n)" by simp
  then have "of_int (n + 1) \<le> (2::real) ^ nat (bitlen n)"
    by (metis of_int_le_iff of_int_numeral of_int_power)
  moreover have "1 / x < of_int (n + 1)"
    unfolding n_def by linarith
  ultimately have lt: "1 / x < 2 ^ nat (bitlen n)" by linarith
  have "1 / 2 ^ nat (bitlen n) < x"
  proof -
    from lt assms have "1 < x * 2 ^ nat (bitlen n)"
      by (simp add: field_simps)
    then show ?thesis by (simp add: field_simps)
  qed
  moreover have "nat (bitlen n) = nat (e' + 1)" by (simp add: e'_def)
  ultimately have low: "1 / 2 ^ nat (e' + 1) < x" by simp
  have ex: "expo x = (if x = pow2 (- e') then - e' else - e' - 1)"
    using False by (simp add: expo_def Let_def n_def e'_def)
  show ?thesis
  proof (cases "x = pow2 (- e')")
    case True
    then have "expo x = - e'" using ex by simp
    with True show ?thesis by simp
  next
    case neq: False
    have "pow2 (- e' - 1) = 1 / 2 ^ nat (e' + 1)"
      using e' by (simp add: pow2_def)
    moreover have "expo x = - e' - 1" using ex neq by simp
    ultimately show ?thesis using low by simp
  qed
qed

lemma binary64_mantissa_pos:
  assumes "0 < a"
  defines "m \<equiv> a / pow2 (expo a - 52)"
  shows "0 < (if m - of_int \<lfloor>m\<rfloor> < 1 / 2 then \<lfloor>m\<rfloor>
              else if 1 / 2 < m - of_int \<lfloor>m\<rfloor> then \<lfloor>m\<rfloor> + 1
              else if even \<lfloor>m\<rfloor> then \<lfloor>m\<rfloor> else \<lfloor>m\<rfloor> + 1)"
proof -
  have "pow2 (expo a - 52) * 2 ^ 52 \<le> a"
    using pow2_expo_le[OF assms(1)] by (simp only: pow2_diff)
  then have "2 ^ 52 \<le> m"
    unfolding m_def using pow2_pos[of "expo a - 52"] by (simp add: field_simps)
  then have "1 \<le> m" by simp
  then have "0 < \<lfloor>m\<rfloor>" by simp
  then show ?thesis by simp
qed

lemma binary64_pos: "0 < x \<Longrightarrow> 0 < binary64 x"
  using binary64_mantissa_pos[of x] pow2_pos[of "expo x - 52"]
  by (simp add: binary64_def Let_def)

lemma binary64_neg: "x < 0 \<Longrightarrow> binary64 x < 0"
  using binary64_mantissa_pos[of "- x"] pow2_pos[of "expo (- x) - 52"]
  by (simp add: binary64_def Let_def mult_less_0_iff zero_less_mult_iff)

lemma binary64_zero: "binary64 0 = 0"
  by (simp add: binary64_def)

lemma sign_preserving_exact: "sign_preserving exact"
  by (simp add: sign_preserving_def exact_def)

lemma sign_preserving_binary64: "sign_preserving binary64"
  by (simp add: sign_preserving_def binary64_zero binary64_pos binary64_neg)

lemma sign_preserving_nonzero: "sign_preserving r \<Longrightarrow> x \<noteq> 0 \<Longrightarrow> r x \<noteq> 0"
  unfolding sign_preserving_def by (metis less_irrefl linorder_neqE_linordered_idom)

section \<open>Rounding a rounded value\<close>















section \<open>Truncation of the quotient\<close>

lemma py_int_neg: "q \<le> - 1 \<Longrightarrow> py_int q + 1 \<le> 0"
proof -
  assume "q \<le> - 1"
  then have "\<lceil>q\<rceil> \<le> - 1" by (simp add: ceiling_le_iff)
  with \<open>q \<le> - 1\<close> show ?thesis by (simp add: py_int_def)
qed

lemma py_int_nonneg: "- 1 < q \<Longrightarrow> 0 \<le> py_int q"
proof -
  assume "- 1 < q"
  then have "0 \<le> \<lceil>q\<rceil>" by (simp add: le_ceiling_iff)
  then show ?thesis by (simp add: py_int_def)
qed

section \<open>No path, and paths with a NaN\<close>

lemma monte_carlo_no_paths:
  "N \<le> 0 \<Longrightarrow> monte_carlo r draws Delta vols F0 steps N = (zeros2 (steps - 1) (steps - 1), 0)"
  by (simp add: monte_carlo_def)

lemma fadd_NaN [simp]: "fadd r x NaN = NaN"
  by (cases x) simp_all

lemma fmul_NaN [simp]: "fmul r x NaN = NaN"
  by (cases x) simp_all

lemma fdiv_NaN [simp]: "fdiv r x NaN = NaN"
  by (cases x) simp_all

lemma fdiv_by_zero: "fdiv r x (Fin 0) \<in> {PInf, NInf, NaN}"
  by (cases x) simp_all

lemma drift_term_zero_denominator:
  "fadd r (Fin 1) (fmul r (Delta ! i) (mget F i j)) = Fin 0 \<Longrightarrow>
   drift_term r Delta vols F k j i \<in> {PInf, NInf, NaN}"
  by (simp only: drift_term_def fdiv_by_zero)

lemma evolve_NaN: "evolve r Delta vols k j NaN e f = NaN"
  by (simp add: evolve_def fsub_def)

lemma path_sum_NaN:
  assumes "p < n"
    and "mget (fst (simulate_path r draws Delta vols F0 steps (p * tri (steps - 1)))) k j = NaN"
  shows "path_sum r draws Delta vols F0 steps n k j = NaN"
  using assms(1)
proof (induction n)
  case 0
  then show ?case by simp
next
  case (Suc n)
  show ?case
  proof (cases "p = n")
    case True
    with assms(2) show ?thesis by simp
  next
    case False
    with Suc have "path_sum r draws Delta vols F0 steps n k j = NaN" by simp
    then show ?thesis by simp
  qed
qed

section \<open>Entries that are the same in every path\<close>

lemma simulate_path_result:
  assumes "simulate_path r draws Delta vols F0 steps c = (F, c')"
  shows "shape (steps - 1) (steps - 1) F"
    and "c' = c + tri (steps - 1)"
    and "\<And>k j. j < k \<Longrightarrow> k < steps - 1 \<Longrightarrow>
           mget F k (j + 1) =
             evolve r Delta vols k j (drift r Delta vols F k j) (draws (c + tri k + j)) (mget F k j)"
    and "\<And>i. i < steps - 1 \<Longrightarrow> mget F i 0 = mget F0 i 0"
    and "\<And>k j. k < j \<Longrightarrow> j < steps - 1 \<Longrightarrow> mget F k j = Fin 0"
proof -
  have pl: "path_loops r draws Delta vols F0 steps (zeros2 (steps - 1) (steps - 1), c) = (F, c')"
    using assms by (simp add: simulate_path_def)
  note res = path_loops_result[OF shape_zeros2 pl]
  show "shape (steps - 1) (steps - 1) F" by (rule res(1))
  show "c' = c + tri (steps - 1)" by (rule res(2))
  show "\<And>k j. j < k \<Longrightarrow> k < steps - 1 \<Longrightarrow>
           mget F k (j + 1) =
             evolve r Delta vols k j (drift r Delta vols F k j) (draws (c + tri k + j)) (mget F k j)"
    by (rule res(3))
  show "\<And>i. i < steps - 1 \<Longrightarrow> mget F i 0 = mget F0 i 0" by (rule res(4))
  show "\<And>k j. k < j \<Longrightarrow> j < steps - 1 \<Longrightarrow> mget F k j = Fin 0"
    using res(5) by (simp add: mget_zeros2)
qed

lemma path_sum_const:
  assumes "\<And>c. mget (fst (simulate_path r draws Delta vols F0 steps c)) k j = x"
  shows "path_sum r draws Delta vols F0 steps p k j = ((\<lambda>a. fadd r a x) ^^ p) (Fin 0)"
  by (induction p) (simp_all add: assms)

lemma upper_cell_zero:
  assumes "k < j" and "j < steps - 1"
  shows "mget (fst (simulate_path r draws Delta vols F0 steps c)) k j = Fin 0"
  using simulate_path_result(5)[OF prod.collapse[symmetric] assms] .

lemma column0_cell:
  assumes "k < steps - 1"
  shows "mget (fst (simulate_path r draws Delta vols F0 steps c)) k 0 = mget F0 k 0"
  using simulate_path_result(4)[OF prod.collapse[symmetric] assms] .

lemma add_zero_iter: "r 0 = 0 \<Longrightarrow> ((\<lambda>a. fadd r a (Fin 0)) ^^ p) (Fin 0) = Fin 0"
  by (induction p) simp_all

lemma exact_average:
  assumes "0 < p"
  shows "fdiv exact (((\<lambda>a. fadd exact a x) ^^ p) (Fin 0)) (Fin (exact (of_nat p))) = x"
proof (cases x)
  case (Fin v)
  have "((\<lambda>a. fadd exact a (Fin v)) ^^ n) (Fin 0) = Fin (of_nat n * v)" for n
    by (induction n) (simp_all add: exact_def algebra_simps)
  with Fin assms show ?thesis by (simp add: exact_def)
next
  case PInf
  have "((\<lambda>a. fadd exact a PInf) ^^ Suc n) (Fin 0) = PInf" for n
    by (induction n) simp_all
  with PInf assms show ?thesis by (cases p) (simp_all add: exact_def)
next
  case NInf
  have "((\<lambda>a. fadd exact a NInf) ^^ Suc n) (Fin 0) = NInf" for n
    by (induction n) simp_all
  with NInf assms show ?thesis by (cases p) (simp_all add: exact_def)
next
  case NaN
  with assms show ?thesis by (cases p) simp_all
qed

lemma time_steps_nth: "i < steps - 1 \<Longrightarrow> time_steps steps time_step ! i = Fin time_step"
  by (simp add: time_steps_def)

section \<open>Index ranges\<close>

lemma indices_in_range:
  assumes "s - 1 \<le> length vols" and "k < s - 1" and "j < k" and "j < i" and "i \<le> k"
  shows "i < length (time_steps s time_step)" and "j < length (time_steps s time_step)"
    and "i - j - 1 < length vols" and "k - j - 1 < length vols"
    and "j + 1 < s - 1" and "0 \<le> int i - int j - 1" and "0 \<le> int k - int j - 1"
  using assms by (simp_all add: time_steps_def)

section \<open>The update in exact arithmetic\<close>

lemma drift_exact:
  assumes "j \<le> k"
    and "\<And>i. j < i \<Longrightarrow> i \<le> k \<Longrightarrow>
           Delta ! i = Fin (dl i) \<and> mget F i j = Fin (f i) \<and> 1 + dl i * f i \<noteq> 0"
  shows "drift exact Delta vols F k j =
           Fin (\<Sum>i = j + 1..k. dl i * f i * vols ! (i - j - 1) * vols ! (k - j - 1) / (1 + dl i * f i))"
proof -
  define t where "t i = dl i * f i * vols ! (i - j - 1) * vols ! (k - j - 1) / (1 + dl i * f i)" for i
  have summand: "drift_term exact Delta vols F k j i = Fin (t i)" if "j < i" "i \<le> k" for i
    using assms(2)[OF that] by (simp add: drift_term_def exact_def t_def)
  have "fold (\<lambda>i sum1. fadd exact sum1 (drift_term exact Delta vols F k j i)) [j + 1..<k + 1] (Fin 0)
          = Fin (sum t {j + 1..<k + 1})"
  proof (rule fold_upt_invariant[where I = "\<lambda>n s. s = Fin (sum t {j + 1..<n})"])
    show "Fin 0 = Fin (sum t {j + 1..<j + 1})" by simp
    show "j + 1 \<le> k + 1" using assms(1) by simp
    fix i s
    assume "j + 1 \<le> i" "i < k + 1" "s = Fin (sum t {j + 1..<i})"
    then show "fadd exact s (drift_term exact Delta vols F k j i) = Fin (sum t {j + 1..<Suc i})"
      using summand[of i] by (simp add: exact_def)
  qed
  then show ?thesis
    by (simp add: drift_def t_def atLeastLessThanSuc_atLeastAtMost)
qed

lemma evolve_exact:
  assumes "Delta ! j = Fin d" and "0 \<le> d"
  shows "evolve exact Delta vols k j (Fin s1) e (Fin f) =
           Fin (f * exp ((s1 - (vols ! (k - j - 1))\<^sup>2 / 2) * d + vols ! (k - j - 1) * e * sqrt d))"
  using assms by (simp add: evolve_def fsub_def exact_def numeral_2_eq_2 power2_eq_square)

section \<open>The entries on and below the diagonal\<close>

lemma lower_triangle_determined:
  assumes F: "\<And>k j. j < k \<Longrightarrow> k < n \<Longrightarrow>
           mget F k (j + 1) =
             evolve r Delta vols k j (drift r Delta vols F k j) (draws (c + tri k + j)) (mget F k j)"
    and F': "\<And>k j. j < k \<Longrightarrow> k < n \<Longrightarrow>
           mget F' k (j + 1) =
             evolve r Delta vols k j (drift r Delta vols F' k j) (draws (c + tri k + j)) (mget F' k j)"
    and col0: "\<And>i. i < n \<Longrightarrow> mget F i 0 = mget F' i 0"
  shows "j \<le> k \<Longrightarrow> k < n \<Longrightarrow> mget F k j = mget F' k j"
proof (induction j arbitrary: k)
  case 0
  then show ?case by (simp add: col0)
next
  case (Suc j)
  then have jk: "j < k" and kn: "k < n" by simp_all
  have cells: "mget F i j = mget F' i j" if "j \<le> i" "i \<le> k" for i
    using Suc.IH[of i] that kn by simp
  have "drift r Delta vols F k j = drift r Delta vols F' k j"
    by (rule drift_cong) (use cells in simp)
  moreover have "mget F k j = mget F' k j"
    using cells[of k] jk by simp
  ultimately show ?case
    using F[OF jk kn] F'[OF jk kn] by simp
qed

section \<open>Finite initial rates and zero volatility\<close>







section \<open>Numbering of the draws\<close>

lemma tri_mono: "k \<le> k' \<Longrightarrow> tri k \<le> tri k'"
  by (induction k') (auto simp: le_Suc_eq)

lemma draw_index_bound: "j < k \<Longrightarrow> k < n \<Longrightarrow> tri k + j < tri n"
  using tri_mono[of "Suc k" n] by simp

lemma draw_index_inj:
  assumes "j < k" and "j' < k'" and "tri k' + j' = tri k + j"
  shows "k' = k \<and> j' = j"
proof -
  have "k' = k"
  proof (rule ccontr)
    assume "k' \<noteq> k"
    then consider "k < k'" | "k' < k" by linarith
    then show False
    proof cases
      case 1
      with draw_index_bound[OF assms(1), of k'] assms(3) show False by simp
    next
      case 2
      with draw_index_bound[OF assms(2), of k] assms(3) show False by simp
    qed
  qed
  with assms(3) show ?thesis by simp
qed

section \<open>Unfolding the model on concrete inputs\<close>

lemmas model_defs = one_factor_LIBOR_Market_Model_def steps_of_def max_float_def py_int_def
  time_steps_def
  discount_factors_def initial_forward_rates_def monte_carlo_def simulate_path_def path_loops_def
  copy_column0_def evolve_tenor_def update_rate_def evolve_def drift_def drift_term_def
  zeros2_def mget_def mset_def madd_def mdiv_def fsub_def const_draws_def

section \<open>Discount factors and input validation\<close>

text \<open>
  Claim C3. For every index \<open>i\<close> below \<open>steps\<close> the loop stores
  \<open>B_0[i] = 1 / (1 + zero_curve[i]) ** (i + 1)\<close>: one division of 1 by the \<open>(i + 1)\<close>-th
  power of \<open>1 + zero_curve[i]\<close>, whatever the rounding; in exact arithmetic, and for a zero
  rate other than \<open>-1\<close>, this is the real number \<open>1 / (1 + zero_curve[i]) ^ (i + 1)\<close>.
\<close>

theorem discount_factor_formula:
  assumes "i < steps"
  shows "discount_factors r zero_curve steps ! i =
           fdiv r (Fin 1) (fpow r (fadd r (Fin 1) (Fin (zero_curve ! i))) (i + 1))
       \<and> (zero_curve ! i \<noteq> - 1 \<longrightarrow>
            discount_factors exact zero_curve steps ! i = Fin (1 / (1 + zero_curve ! i) ^ (i + 1)))"
  using assms by (simp add: discount_factors_nth exact_def)

theorem discount_factor_formula_witness:
  "(1::nat) < 2 \<and> discount_factors exact [1, 1] 2 ! 1 = Fin (1 / (1 + 1) ^ (1 + 1))"
  using discount_factor_formula[of 1 2 exact "[1, 1]"] by (simp add: exact_def)

text \<open>
  Claim C4. Once \<open>steps\<close> is computed, a \<open>zero_curve\<close> shorter than \<open>steps\<close> or a
  \<open>forward_rate_volatilities\<close> shorter than \<open>steps - 1\<close> makes the entry point raise the
  \<open>ValueError\<close> of the failed length check. The result is the error alone, for every
  generator and every \<open>N\<close>: no array is built and no number is drawn before it.
\<close>

theorem insufficient_input_length:
  assumes "steps_of r time_step maturity = Inr steps"
    and "int (length zero_curve) < steps \<or> int (length forward_rate_volatilities) < steps - 1"
  shows "one_factor_LIBOR_Market_Model r draws time_step maturity zero_curve forward_rate_volatilities N =
           Inl (ValueError
                  (if int (length zero_curve) < steps
                   then ''zero_curve must have at least `steps` elements.''
                   else ''forward_rate_volatilities must have at least `steps - 1` elements.''))"
  using assms by (auto simp: one_factor_LIBOR_Market_Model_def)

theorem insufficient_input_length_witness:
  "steps_of exact 1 2 = Inr 3 \<and>
   one_factor_LIBOR_Market_Model exact (const_draws 0) 1 2 [0, 0] [0, 0] 5 =
     Inl (ValueError ''zero_curve must have at least `steps` elements.'')"
  using insufficient_input_length[of exact 1 2 3 "[0, 0]" "[0, 0]" "const_draws 0" 5]
  by (simp add: steps_of_def max_float_def py_int_def exact_def)

section \<open>Parameters that the entry point does not validate\<close>

text \<open>
  Claim C5 says that \<open>N \<le> 0\<close> is rejected with an error. The function has no check on \<open>N\<close>:
  \<open>range(N)\<close> is empty, the zero accumulator is divided by \<open>N\<close>, and the quotient is returned.
  With \<open>N = 0\<close>, a curve of two rates and \<open>steps = 2\<close> the result is the 1 x 1 matrix holding
  \<open>0 / 0 = nan\<close>.
\<close>

theorem nonpositive_N_counterexample:
  "one_factor_LIBOR_Market_Model exact (const_draws 0) 1 1 [0, 0] [0] 0 = Inr [[NaN]]"
  by (simp add: model_defs exact_def eval_nat_numeral upt_rec)

text \<open>
  Claim C5, amended. For \<open>N \<le> 0\<close> and an input on which \<open>steps\<close> is computed, is at least 1
  and passes the length checks, the entry point raises nothing and returns the \<open>(steps - 1) x (steps - 1)\<close> matrix whose every entry is \<open>0 / N\<close>: NaN when
  \<open>N\<close> is (rounded to) zero and the rounded quotient \<open>0 / N\<close>, that is zero, otherwise.
\<close>

theorem nonpositive_N_returns:
  assumes "N \<le> 0"
    and "steps_of r time_step maturity = Inr (int s)" and "1 \<le> s"
    and "s \<le> length zero_curve" and "s - 1 \<le> length forward_rate_volatilities"
  shows "one_factor_LIBOR_Market_Model r draws time_step maturity zero_curve forward_rate_volatilities N =
           Inr (replicate (s - 1) (replicate (s - 1)
                  (if r (of_int N) = 0 then NaN else Fin (r (0 / r (of_int N))))))"
  using assms(1) model_result[OF assms(2-5), of draws N]
  by (simp add: monte_carlo_no_paths mdiv_def zeros2_def)

theorem nonpositive_N_returns_witness:
  "(- 2 :: int) \<le> 0 \<and> steps_of exact 1 2 = Inr (int 3) \<and>
   one_factor_LIBOR_Market_Model exact (const_draws 0) 1 2 [0, 0, 0] [0, 0] (- 2) =
     Inr [[Fin 0, Fin 0], [Fin 0, Fin 0]]"
  using nonpositive_N_returns[of "- 2" exact 1 2 3 "[0, 0, 0]" "[0, 0]" "const_draws 0"]
  by (simp add: steps_of_def max_float_def py_int_def exact_def eval_nat_numeral)

text \<open>
  Claim C6 says that \<open>time_step \<le> 0\<close> or \<open>maturity \<le> 0\<close> is rejected with an error. The
  function has no check on either. With \<open>maturity = 0\<close> and \<open>time_step = 1\<close> it computes
  \<open>steps = 1\<close> and returns the empty 0 x 0 matrix; with both equal to \<open>-1\<close> it computes
  \<open>steps = 2\<close> and runs as for positive values.
\<close>

theorem nonpositive_parameters_counterexample:
  "one_factor_LIBOR_Market_Model exact (const_draws 0) 1 0 [0] [] 1 = Inr []
   \<and> one_factor_LIBOR_Market_Model exact (const_draws 0) (- 1) (- 1) [0, 0] [0] 1 = Inr [[Fin 0]]"
  by (simp add: model_defs exact_def eval_nat_numeral upt_rec)

text \<open>
  Claim C6, amended. \<open>time_step = 0\<close> makes the division \<open>maturity / time_step\<close> raise
  \<open>ZeroDivisionError\<close>. For any other \<open>time_step\<close> let \<open>q\<close> be the quotient as the division
  returns it, that is, rounded. If \<open>q\<close> is beyond the largest finite double, the division
  returns an infinity and \<open>int\<close> raises \<open>OverflowError\<close>. Otherwise \<open>steps = int(q) + 1\<close>, with \<open>q\<close>
  truncated toward zero, whatever the signs. For \<open>time_step > 0\<close> and \<open>maturity > 0\<close>, and a
  rounding that keeps the sign, this is \<open>floor(q) + 1\<close>: the floor of the rounded quotient, which
  can exceed the floor of the exact one (the doubles \<open>0.9\<close> and \<open>0.1\<close> have an exact quotient
  below 9, \<open>q = 9.0\<close> and \<open>steps = 10\<close>). A finite \<open>q \<le> -1\<close> gives \<open>steps \<le> 0\<close> and the
  \<open>ValueError\<close> of NumPy for a negative dimension; a finite \<open>q > -1\<close> gives \<open>steps \<ge> 1\<close>, and the
  function returns a matrix if the two arrays are long enough.
\<close>

theorem steps_computation:
  "(time_step = 0 \<longrightarrow>
      one_factor_LIBOR_Market_Model r draws time_step maturity zero_curve forward_rate_volatilities N =
        Inl ZeroDivisionError)
   \<and> (time_step \<noteq> 0 \<and> max_float < \<bar>r (maturity / time_step)\<bar> \<longrightarrow>
      one_factor_LIBOR_Market_Model r draws time_step maturity zero_curve forward_rate_volatilities N =
        Inl OverflowError)
   \<and> (time_step \<noteq> 0 \<and> \<bar>r (maturity / time_step)\<bar> \<le> max_float \<longrightarrow>
        steps_of r time_step maturity = Inr (py_int (r (maturity / time_step)) + 1))
   \<and> (sign_preserving r \<and> 0 < time_step \<and> 0 < maturity \<and> r (maturity / time_step) \<le> max_float \<longrightarrow>
        steps_of r time_step maturity = Inr (\<lfloor>r (maturity / time_step)\<rfloor> + 1))
   \<and> (time_step \<noteq> 0 \<and> - max_float \<le> r (maturity / time_step) \<and> r (maturity / time_step) \<le> - 1 \<longrightarrow>
      one_factor_LIBOR_Market_Model r draws time_step maturity zero_curve forward_rate_volatilities N =
        Inl (ValueError ''negative dimensions are not allowed''))
   \<and> (time_step \<noteq> 0 \<and> - 1 < r (maturity / time_step) \<and> r (maturity / time_step) \<le> max_float
        \<and> py_int (r (maturity / time_step)) + 1 \<le> int (length zero_curve)
        \<and> py_int (r (maturity / time_step)) \<le> int (length forward_rate_volatilities) \<longrightarrow>
      (\<exists>out. one_factor_LIBOR_Market_Model r draws time_step maturity zero_curve
                forward_rate_volatilities N = Inr out))"
proof -
  define q where "q = r (maturity / time_step)"
  have mf: "1 \<le> max_float" by (simp add: max_float_def)
  have zero: "one_factor_LIBOR_Market_Model r draws time_step maturity zero_curve forward_rate_volatilities N =
        Inl ZeroDivisionError" if "time_step = 0"
    using that by (simp add: one_factor_LIBOR_Market_Model_def steps_of_def)
  have over: "one_factor_LIBOR_Market_Model r draws time_step maturity zero_curve forward_rate_volatilities N =
        Inl OverflowError" if "time_step \<noteq> 0" "max_float < \<bar>q\<bar>"
    using that by (simp add: one_factor_LIBOR_Market_Model_def steps_of_def q_def)
  have steps: "steps_of r time_step maturity = Inr (py_int q + 1)"
    if "time_step \<noteq> 0" "\<bar>q\<bar> \<le> max_float"
    using that by (simp add: steps_of_def q_def)
  have floor: "steps_of r time_step maturity = Inr (\<lfloor>q\<rfloor> + 1)"
    if "sign_preserving r" "0 < time_step" "0 < maturity" "q \<le> max_float"
  proof -
    from that(2,3) have "0 < maturity / time_step" by simp
    with that(1) have "0 < q" by (simp add: sign_preserving_def q_def)
    with that(4) have "\<bar>q\<bar> \<le> max_float" by simp
    with steps that(2) \<open>0 < q\<close> show ?thesis by (simp add: py_int_def)
  qed
  have neg: "one_factor_LIBOR_Market_Model r draws time_step maturity zero_curve forward_rate_volatilities N =
        Inl (ValueError ''negative dimensions are not allowed'')"
    if "time_step \<noteq> 0" "- max_float \<le> q" "q \<le> - 1"
  proof -
    from that(2,3) have "\<bar>q\<bar> \<le> max_float" by simp
    from steps[OF that(1) this] py_int_neg[OF that(3)] show ?thesis
      by (simp add: one_factor_LIBOR_Market_Model_def)
  qed
  have ok: "\<exists>out. one_factor_LIBOR_Market_Model r draws time_step maturity zero_curve
                forward_rate_volatilities N = Inr out"
    if "time_step \<noteq> 0" "- 1 < q" "q \<le> max_float"
      "py_int q + 1 \<le> int (length zero_curve)"
      "py_int q \<le> int (length forward_rate_volatilities)"
  proof -
    from that(2,3) mf have "\<bar>q\<bar> \<le> max_float" by simp
    from steps[OF that(1) this] py_int_nonneg[OF that(2)] that(4,5) show ?thesis
      by (simp add: one_factor_LIBOR_Market_Model_def Let_def)
  qed
  show ?thesis
    unfolding q_def[symmetric]
    by (intro conjI impI; (elim conjE)?) (rule zero over steps floor neg ok; assumption)+
qed

theorem steps_computation_witness:
  "one_factor_LIBOR_Market_Model exact (const_draws 0) 0 2 [0, 0, 0] [0, 0] 1 = Inl ZeroDivisionError
   \<and> one_factor_LIBOR_Market_Model exact (const_draws 0) (1 / 4) (2 ^ 1023) [0, 0, 0] [0, 0] 1 =
        Inl OverflowError
   \<and> steps_of exact (1 / 4) (11 / 4) = Inr 12
   \<and> steps_of binary64 (3602879701896397 / 36028797018963968) (8106479329266893 / 9007199254740992) =
        Inr 10
   \<and> one_factor_LIBOR_Market_Model exact (const_draws 0) 1 (- 5) [0, 0, 0] [0, 0] 1 =
        Inl (ValueError ''negative dimensions are not allowed'')
   \<and> (\<exists>out. one_factor_LIBOR_Market_Model exact (const_draws 0) (- 1) (- 1) [0, 0] [0] 1 = Inr out)"
proof -
  have q: "binary64 (32425917317067572 / 3602879701896397) = 9"
    by code_simp
  have a: "one_factor_LIBOR_Market_Model exact (const_draws 0) 0 2 [0, 0, 0] [0, 0] 1 = Inl ZeroDivisionError"
    using steps_computation[of 0 exact "const_draws 0" 2 "[0, 0, 0]" "[0, 0]" 1] by simp
  have b: "one_factor_LIBOR_Market_Model exact (const_draws 0) (1 / 4) (2 ^ 1023) [0, 0, 0] [0, 0] 1 =
        Inl OverflowError"
    using steps_computation[of "1 / 4" exact "const_draws 0" "2 ^ 1023" "[0, 0, 0]" "[0, 0]" 1]
    by (simp add: exact_def max_float_def)
  have c: "steps_of exact (1 / 4) (11 / 4) = Inr 12"
    using steps_computation[of "1 / 4" exact "const_draws 0" "11 / 4" "[0, 0, 0]" "[0, 0]" 1]
      sign_preserving_exact
    by (simp add: exact_def max_float_def py_int_def)
  have d: "steps_of binary64 (3602879701896397 / 36028797018963968) (8106479329266893 / 9007199254740992) =
        Inr 10"
    using steps_computation[of "3602879701896397 / 36028797018963968" binary64 "const_draws 0"
        "8106479329266893 / 9007199254740992" "[0, 0, 0]" "[0, 0]" 1] sign_preserving_binary64
    by (simp add: q max_float_def py_int_def)
  have e: "one_factor_LIBOR_Market_Model exact (const_draws 0) 1 (- 5) [0, 0, 0] [0, 0] 1 =
        Inl (ValueError ''negative dimensions are not allowed'')"
    using steps_computation[of 1 exact "const_draws 0" "- 5" "[0, 0, 0]" "[0, 0]" 1]
    by (simp add: exact_def max_float_def)
  have f: "\<exists>out. one_factor_LIBOR_Market_Model exact (const_draws 0) (- 1) (- 1) [0, 0] [0] 1 = Inr out"
    using steps_computation[of "- 1" exact "const_draws 0" "- 1" "[0, 0]" "[0]" 1]
    by (simp add: exact_def max_float_def py_int_def)
  from a b c d e f show ?thesis by blast
qed

text \<open>
  Claim C7 says that a non-finite intermediate value aborts the run with an error and that
  no NaN reaches the output. The function has no such check. With the zero curve
  \<open>np.array([0, 0, -1])\<close>, zero volatilities, \<open>time_step = 1\<close> and \<open>maturity = 2\<close>: \<open>B_0[2] = 1 / 0 = inf\<close>,
  \<open>F[1][0] = 1 / inf - 1 = -1 = -1 / Delta[1]\<close>, the summand of the drift is \<open>0 / 0 = nan\<close>, and the
  returned matrix holds \<open>nan\<close> at \<open>[1][1]\<close>.
\<close>

theorem non_finite_counterexample:
  "one_factor_LIBOR_Market_Model exact (const_draws 0) 1 2 [0, 0, - 1] [0, 0] 1 =
     Inr [[Fin 0, Fin 0], [Fin (- 1), NaN]]"
  by (simp add: model_defs exact_def eval_nat_numeral upt_rec)

text \<open>
  Claim C7, amended. No error arises during the simulation: with \<open>zero_curve\<close> and
  \<open>forward_rate_volatilities\<close> as NumPy arrays, every call on which \<open>steps \<ge> 1\<close> is computed and
  both length checks pass returns a \<open>(steps - 1) x (steps - 1)\<close> matrix. A zero compounding
  denominator \<open>1 + Delta[i] * F[i][j]\<close> makes the summand of the drift \<open>inf\<close>, \<open>-inf\<close> or NaN. A NaN
  is carried along: a NaN drift makes the updated rate NaN, and an entry that is NaN in the
  matrix of one of the \<open>N\<close> paths is NaN in the returned matrix.
\<close>

theorem non_finite_values_propagate:
  assumes "steps_of r time_step maturity = Inr (int s)" and "1 \<le> s"
    and "s \<le> length zero_curve" and "s - 1 \<le> length forward_rate_volatilities"
  shows "(fadd r (Fin 1) (fmul r (Delta ! i) (mget F i j)) = Fin 0 \<longrightarrow>
            drift_term r Delta forward_rate_volatilities F k j i \<in> {PInf, NInf, NaN})
     \<and> evolve r Delta forward_rate_volatilities k j NaN e f = NaN
     \<and> (\<exists>out. one_factor_LIBOR_Market_Model r draws time_step maturity zero_curve
                   forward_rate_volatilities N = Inr out
          \<and> shape (s - 1) (s - 1) out
          \<and> (\<forall>p k j. p < nat N \<and> k < s - 1 \<and> j < s - 1 \<and>
                 mget (fst (simulate_path r draws (time_steps s time_step) forward_rate_volatilities
                              (initial_forward_rates r (time_steps s time_step)
                                 (discount_factors r zero_curve s) s)
                              s (p * tri (s - 1)))) k j = NaN
               \<longrightarrow> mget out k j = NaN))"
proof -
  from model_cells[OF assms, of draws N] obtain out where
    out: "one_factor_LIBOR_Market_Model r draws time_step maturity zero_curve
            forward_rate_volatilities N = Inr out"
      "shape (s - 1) (s - 1) out"
      "\<And>k j. k < s - 1 \<Longrightarrow> j < s - 1 \<Longrightarrow> mget out k j =
                   fdiv r (path_sum r draws (time_steps s time_step) forward_rate_volatilities
                             (initial_forward_rates r (time_steps s time_step)
                                (discount_factors r zero_curve s) s) s (nat N) k j)
                          (Fin (r (of_int N)))"
    by blast
  have "mget out k j = NaN"
    if "p < nat N" "k < s - 1" "j < s - 1"
      "mget (fst (simulate_path r draws (time_steps s time_step) forward_rate_volatilities
                              (initial_forward_rates r (time_steps s time_step)
                                 (discount_factors r zero_curve s) s)
                              s (p * tri (s - 1)))) k j = NaN" for p k j
    using out(3)[OF that(2,3)] path_sum_NaN[OF that(1,4)] by simp
  with out(1,2) have "\<exists>out. one_factor_LIBOR_Market_Model r draws time_step maturity zero_curve
                   forward_rate_volatilities N = Inr out
          \<and> shape (s - 1) (s - 1) out
          \<and> (\<forall>p k j. p < nat N \<and> k < s - 1 \<and> j < s - 1 \<and>
                 mget (fst (simulate_path r draws (time_steps s time_step) forward_rate_volatilities
                              (initial_forward_rates r (time_steps s time_step)
                                 (discount_factors r zero_curve s) s)
                              s (p * tri (s - 1)))) k j = NaN
               \<longrightarrow> mget out k j = NaN)"
    by blast
  then show ?thesis
    using evolve_NaN drift_term_zero_denominator by (intro conjI impI)
qed

theorem non_finite_values_propagate_witness:
  "steps_of exact 1 2 = Inr (int 3)
   \<and> fadd exact (Fin 1) (fmul exact (time_steps 3 1 ! 1) (mget [[Fin 0, Fin 0], [Fin (- 1), Fin 0]] 1 0)) = Fin 0
   \<and> drift_term exact (time_steps 3 1) [0, 0] [[Fin 0, Fin 0], [Fin (- 1), Fin 0]] 1 0 1 \<in> {PInf, NInf, NaN}
   \<and> mget (fst (simulate_path exact (const_draws 0) (time_steps 3 1) [0, 0]
                 (initial_forward_rates exact (time_steps 3 1) (discount_factors exact [0, 0, - 1] 3) 3)
                 3 (0 * tri (3 - 1)))) 1 1 = NaN
   \<and> (\<exists>out. one_factor_LIBOR_Market_Model exact (const_draws 0) 1 2 [0, 0, - 1] [0, 0] 1 = Inr out
          \<and> mget out 1 1 = NaN)"
proof -
  have h1: "steps_of exact 1 2 = Inr (int 3)"
    by (simp add: steps_of_def max_float_def py_int_def exact_def)
  have h2: "mget (fst (simulate_path exact (const_draws 0) (time_steps 3 1) [0, 0]
                 (initial_forward_rates exact (time_steps 3 1) (discount_factors exact [0, 0, - 1] 3) 3)
                 3 (0 * tri (3 - 1)))) 1 1 = NaN"
    by (simp add: model_defs exact_def eval_nat_numeral upt_rec)
  have h3: "fadd exact (Fin 1) (fmul exact (time_steps 3 1 ! 1) (mget [[Fin 0, Fin 0], [Fin (- 1), Fin 0]] 1 0)) = Fin 0"
    by (simp add: time_steps_def mget_def exact_def eval_nat_numeral)
  note t = non_finite_values_propagate[OF h1, where zero_curve = "[0, 0, - 1]"
      and forward_rate_volatilities = "[0, 0]" and Delta = "time_steps 3 1" and i = 1 and j = 0 and k = 1
      and F = "[[Fin 0, Fin 0], [Fin (- 1), Fin 0]]" and e = 0 and f = NaN
      and draws = "const_draws 0" and N = 1]
  have d: "drift_term exact (time_steps 3 1) [0, 0] [[Fin 0, Fin 0], [Fin (- 1), Fin 0]] 1 0 1 \<in> {PInf, NInf, NaN}"
    using t[THEN conjunct1, THEN mp, OF _ _ _ h3] by simp
  from t[THEN conjunct2, THEN conjunct2]
  obtain out where o1: "one_factor_LIBOR_Market_Model exact (const_draws 0) 1 2 [0, 0, - 1] [0, 0] 1 = Inr out"
    and o2: "\<forall>p k j. p < nat 1 \<and> k < 3 - 1 \<and> j < 3 - 1 \<and>
                 mget (fst (simulate_path exact (const_draws 0) (time_steps 3 1) [0, 0]
                              (initial_forward_rates exact (time_steps 3 1)
                                 (discount_factors exact [0, 0, - 1] 3) 3)
                              3 (p * tri (3 - 1)))) k j = NaN
               \<longrightarrow> mget out k j = NaN"
    by auto
  have "mget out 1 1 = NaN"
    using o2[rule_format, of 0 1 1] h2 by simp
  with o1 h1 h2 h3 d show ?thesis by blast
qed

section \<open>Column 0 and the upper triangle of the output\<close>

text \<open>
  Claim C2 says that column 0 of the averaged output equals the initial forward rate exactly,
  for every \<open>N\<close>. With \<open>time_step = maturity = 10\<close>, the zero curve \<open>[1, 1]\<close> and \<open>N = 3\<close> the
  initial rate is the double \<open>0.1\<close>; the accumulator takes \<open>0.1\<close>, \<open>0.2\<close> and
  \<open>0.30000000000000004\<close>, and the quotient by 3 is \<open>0.10000000000000002\<close>, one unit in the last
  place above \<open>0.1\<close>. (There is one tenor, so no number is drawn.)
\<close>

theorem initial_column_counterexample:
  "one_factor_LIBOR_Market_Model binary64 (const_draws 0) 10 10 [1, 1] [0] 3 =
     Inr [[Fin (7205759403792795 / 72057594037927936)]]
   \<and> initial_forward_rates binary64 (time_steps 2 10) (discount_factors binary64 [1, 1] 2) 2 =
     [[Fin (3602879701896397 / 36028797018963968)]]"
proof -
  have b: "binary64 1 = 1" "binary64 2 = 2" "binary64 3 = 3" "binary64 4 = 4"
    "binary64 (1 / 2) = 1 / 2" "binary64 (1 / 4) = 1 / 4"
    "binary64 (1 / 10) = 3602879701896397 / 36028797018963968"
    "binary64 (3602879701896397 / 36028797018963968) = 3602879701896397 / 36028797018963968"
    "binary64 (3602879701896397 / 18014398509481984) = 3602879701896397 / 18014398509481984"
    "binary64 (10808639105689191 / 36028797018963968) = 1351079888211149 / 4503599627370496"
    "binary64 (1351079888211149 / 13510798882111488) = 7205759403792795 / 72057594037927936"
    by code_simp+
  show ?thesis
    by (simp add: model_defs eval_nat_numeral upt_rec b)
qed

text \<open>
  Claim C2, amended. For every \<open>k\<close> in \<open>[0, steps - 2]\<close> the initial forward rate is
  \<open>F[k][0] = (1 / Delta[k]) * (B_0[k] / B_0[k + 1] - 1)\<close>, and every path keeps it in column 0,
  whatever the draws. The output entry \<open>[k][0]\<close> is that value added \<open>N\<close> times to zero and
  divided by \<open>N\<close>: it does not depend on the draws, and in exact arithmetic with \<open>N > 0\<close> it
  is \<open>F[k][0]\<close> itself.
\<close>

theorem initial_column:
  fixes r :: rounding
  assumes "steps_of r time_step maturity = Inr (int s)" and "1 \<le> s"
    and "s \<le> length zero_curve" and "s - 1 \<le> length forward_rate_volatilities"
    and "k < s - 1"
  defines "B_0 \<equiv> discount_factors r zero_curve s"
  defines "F0 \<equiv> initial_forward_rates r (time_steps s time_step) B_0 s"
  shows "mget F0 k 0 =
           fmul r (fdiv r (Fin 1) (Fin time_step)) (fsub r (fdiv r (B_0 ! k) (B_0 ! (k + 1))) (Fin 1))
     \<and> (\<forall>c. mget (fst (simulate_path r draws (time_steps s time_step) forward_rate_volatilities
                        F0 s c)) k 0 = mget F0 k 0)
     \<and> (\<exists>out. one_factor_LIBOR_Market_Model r draws time_step maturity zero_curve
                 forward_rate_volatilities N = Inr out
             \<and> mget out k 0 =
                 fdiv r (((\<lambda>a. fadd r a (mget F0 k 0)) ^^ nat N) (Fin 0)) (Fin (r (of_int N)))
             \<and> (r = exact \<and> 0 < N \<longrightarrow> mget out k 0 = mget F0 k 0))"
proof -
  from model_cells[OF assms(1-4), of draws N] obtain out where
    out: "one_factor_LIBOR_Market_Model r draws time_step maturity zero_curve
            forward_rate_volatilities N = Inr out"
      "\<And>k j. k < s - 1 \<Longrightarrow> j < s - 1 \<Longrightarrow> mget out k j =
                   fdiv r (path_sum r draws (time_steps s time_step) forward_rate_volatilities
                             F0 s (nat N) k j)
                          (Fin (r (of_int N)))"
    unfolding F0_def B_0_def by blast
  have init: "mget F0 k 0 =
           fmul r (fdiv r (Fin 1) (Fin time_step)) (fsub r (fdiv r (B_0 ! k) (B_0 ! (k + 1))) (Fin 1))"
    unfolding F0_def using initial_forward_rates_result(2)[OF assms(5)] assms(5)
    by (simp add: time_steps_nth)
  have path: "mget (fst (simulate_path r draws (time_steps s time_step) forward_rate_volatilities
                        F0 s c)) k 0 = mget F0 k 0" for c
    using assms(5) by (rule column0_cell)
  have cell: "mget out k 0 =
      fdiv r (((\<lambda>a. fadd r a (mget F0 k 0)) ^^ nat N) (Fin 0)) (Fin (r (of_int N)))"
    using out(2)[of k 0] assms(5) path_sum_const[of r draws _ _ F0 s k 0 "mget F0 k 0" "nat N"] path
    by simp
  have "mget out k 0 = mget F0 k 0" if "r = exact" "0 < N"
    using cell that exact_average[of "nat N" "mget F0 k 0"] by simp
  with out(1) init path cell show ?thesis by blast
qed

theorem initial_column_witness:
  "steps_of exact (1 / 4) (1 / 2) = Inr (int 3)
   \<and> (\<exists>out. one_factor_LIBOR_Market_Model exact (const_draws 1) (1 / 4) (1 / 2)
               [1 / 100, 1 / 100, 1 / 100] [1 / 10, 1 / 10] 3 = Inr out
          \<and> mget out 1 0 =
              mget (initial_forward_rates exact (time_steps 3 (1 / 4))
                      (discount_factors exact [1 / 100, 1 / 100, 1 / 100] 3) 3) 1 0)"
proof -
  have h: "steps_of exact (1 / 4) (1 / 2) = Inr (int 3)"
    by (simp add: steps_of_def max_float_def py_int_def exact_def)
  show ?thesis
    using initial_column[OF h, of "[1 / 100, 1 / 100, 1 / 100]" "[1 / 10, 1 / 10]" 1
        "const_draws 1" 3] h
    by auto
qed

text \<open>
  Claim C10 says that every entry above the diagonal of the returned matrix is zero. With
  \<open>N = 0\<close>, which the function accepts, the zero accumulator is divided by zero and every
  entry of the returned matrix, above the diagonal too, is \<open>0 / 0 = nan\<close>.
\<close>

theorem upper_triangle_counterexample:
  "one_factor_LIBOR_Market_Model exact (const_draws 0) 1 2 [0, 0, 0] [0, 0] 0 =
     Inr [[NaN, NaN], [NaN, NaN]]"
  by (simp add: model_defs exact_def eval_nat_numeral upt_rec)

text \<open>
  Claim C10, amended. In the returned \<open>(steps - 1) x (steps - 1)\<close> matrix every entry above the
  diagonal (\<open>k < j\<close>) is zero when \<open>N \<noteq> 0\<close>, and NaN when \<open>N = 0\<close>: no path writes there, the
  accumulator adds zeros, and the sum is divided by \<open>N\<close>. This holds for every rounding that
  keeps the sign, as exact arithmetic and \<open>binary64\<close> do.
\<close>

theorem upper_triangle_zero:
  assumes "steps_of r time_step maturity = Inr (int s)" and "1 \<le> s"
    and "s \<le> length zero_curve" and "s - 1 \<le> length forward_rate_volatilities"
    and "sign_preserving r"
    and "k < j" and "j < s - 1"
  shows "\<exists>out. one_factor_LIBOR_Market_Model r draws time_step maturity zero_curve
                 forward_rate_volatilities N = Inr out
           \<and> length out = s - 1 \<and> length (out ! k) = s - 1
           \<and> mget out k j = (if N = 0 then NaN else Fin 0)"
proof -
  from model_cells[OF assms(1-4), of draws N] obtain out where
    out: "one_factor_LIBOR_Market_Model r draws time_step maturity zero_curve
            forward_rate_volatilities N = Inr out"
      "shape (s - 1) (s - 1) out"
      "\<And>k j. k < s - 1 \<Longrightarrow> j < s - 1 \<Longrightarrow> mget out k j =
                   fdiv r (path_sum r draws (time_steps s time_step) forward_rate_volatilities
                             (initial_forward_rates r (time_steps s time_step)
                                (discount_factors r zero_curve s) s) s (nat N) k j)
                          (Fin (r (of_int N)))"
    by blast
  from assms(6,7) have k: "k < s - 1" by simp
  have r0: "r 0 = 0" using assms(5) by (simp add: sign_preserving_def)
  have rN: "r (of_int N) = 0 \<longleftrightarrow> N = 0"
    using sign_preserving_nonzero[OF assms(5), of "of_int N"] r0 by auto
  have "path_sum r draws (time_steps s time_step) forward_rate_volatilities
          (initial_forward_rates r (time_steps s time_step) (discount_factors r zero_curve s) s)
          s (nat N) k j = Fin 0"
    using path_sum_const[of r draws _ _ _ s k j "Fin 0"] upper_cell_zero[OF assms(6,7)]
      add_zero_iter[of r "nat N"] r0 by simp
  then have "mget out k j = (if N = 0 then NaN else Fin 0)"
    using out(3)[OF k assms(7)] r0 rN by simp
  with out(1,2) k show ?thesis
    by (auto simp: shape_def)
qed

theorem upper_triangle_zero_witness:
  "steps_of binary64 (1 / 4) (1 / 2) = Inr (int 3) \<and> sign_preserving binary64
   \<and> (\<exists>out. one_factor_LIBOR_Market_Model binary64 (const_draws 1) (1 / 4) (1 / 2)
               [1 / 100, 1 / 100, 1 / 100] [1 / 10, 1 / 10] 3 = Inr out
             \<and> length out = 3 - 1 \<and> length (out ! 0) = 3 - 1 \<and> mget out 0 1 = Fin 0)
   \<and> (\<exists>out. one_factor_LIBOR_Market_Model binary64 (const_draws 1) (1 / 4) (1 / 2)
               [1 / 100, 1 / 100, 1 / 100] [1 / 10, 1 / 10] 0 = Inr out
             \<and> length out = 3 - 1 \<and> length (out ! 0) = 3 - 1 \<and> mget out 0 1 = NaN)"
proof -
  have b: "binary64 ((1 / 2) / (1 / 4)) = 2" by code_simp
  have h: "steps_of binary64 (1 / 4) (1 / 2) = Inr (int 3)"
    using b by (simp add: steps_of_def max_float_def py_int_def)
  show ?thesis
    using upper_triangle_zero[OF h _ _ _ sign_preserving_binary64,
        of "[1 / 100, 1 / 100, 1 / 100]" "[1 / 10, 1 / 10]" 0 1 "const_draws 1" 3]
      upper_triangle_zero[OF h _ _ _ sign_preserving_binary64,
        of "[1 / 100, 1 / 100, 1 / 100]" "[1 / 10, 1 / 10]" 0 1 "const_draws 1" 0]
      h sign_preserving_binary64
    by simp
qed

section \<open>The update of a forward rate\<close>

text \<open>
  Claim C1. In the matrix \<open>F\<close> that a path leaves, for every tenor \<open>k\<close> in \<open>[1, steps - 2]\<close> and
  every step \<open>j\<close> in \<open>[0, k - 1]\<close>,
  \<open>F[k][j + 1] = F[k][j] * exp((drift(k, j) - sigma[k - j - 1]^2 / 2) * Delta[j]
     + sigma[k - j - 1] * e * sqrt(Delta[j]))\<close>
  where \<open>drift(k, j)\<close> is the sum over \<open>i\<close> from \<open>j + 1\<close> to \<open>k\<close> of
  \<open>Delta[i] * F[i][j] * sigma[i - j - 1] * sigma[k - j - 1] / (1 + Delta[i] * F[i][j])\<close>, computed
  from the entries of the same matrix: no entry that an update reads is overwritten later.
  The draw \<open>e\<close> is the one with number \<open>c + tri k + j\<close> when the path starts with the generator
  at \<open>c\<close>: a number below \<open>c + tri (steps - 1)\<close>, where the path leaves the generator and the
  next path starts, and a different one for each pair \<open>(k, j)\<close>, so that no draw is used twice. The first conjunct holds for every
  rounding, with the operations as the source applies them; the last one spells the formula
  out over the reals, for exact arithmetic, finite entries and nonzero denominators.
\<close>

theorem forward_rate_update:
  fixes r :: rounding and draws :: "nat \<Rightarrow> real" and Delta :: "npfloat list" and vols :: "real list"
    and F0 :: matrix and steps c k j :: nat
  assumes "j < k" and "k < steps - 1"
  defines "F \<equiv> fst (simulate_path r draws Delta vols F0 steps c)"
  defines "e \<equiv> draws (c + tri k + j)"
  shows "mget F k (j + 1) = evolve r Delta vols k j (drift r Delta vols F k j) e (mget F k j)
     \<and> snd (simulate_path r draws Delta vols F0 steps c) = c + tri (steps - 1)
     \<and> tri k + j < tri (steps - 1)
     \<and> (\<forall>k' j'. j' < k' \<and> tri k' + j' = tri k + j \<longrightarrow> k' = k \<and> j' = j)
     \<and> (r = exact \<and> 0 \<le> dl j \<and> (\<forall>i. j \<le> i \<and> i \<le> k \<longrightarrow> Delta ! i = Fin (dl i))
          \<and> (\<forall>i. j < i \<and> i \<le> k \<longrightarrow> mget F i j = Fin (f i) \<and> 1 + dl i * f i \<noteq> 0)
        \<longrightarrow> mget F k (j + 1) =
              Fin (f k * exp (((\<Sum>i = j + 1..k. dl i * f i * vols ! (i - j - 1) * vols ! (k - j - 1)
                                               / (1 + dl i * f i))
                               - (vols ! (k - j - 1))\<^sup>2 / 2) * dl j
                              + vols ! (k - j - 1) * e * sqrt (dl j))))"
proof -
  have sp: "simulate_path r draws Delta vols F0 steps c = (F, snd (simulate_path r draws Delta vols F0 steps c))"
    by (simp add: F_def)
  note res = simulate_path_result[OF sp]
  have upd: "mget F k (j + 1) = evolve r Delta vols k j (drift r Delta vols F k j) e (mget F k j)"
    unfolding e_def using assms(1,2) by (rule res(3))
  have "mget F k (j + 1) =
              Fin (f k * exp (((\<Sum>i = j + 1..k. dl i * f i * vols ! (i - j - 1) * vols ! (k - j - 1)
                                               / (1 + dl i * f i))
                               - (vols ! (k - j - 1))\<^sup>2 / 2) * dl j
                              + vols ! (k - j - 1) * e * sqrt (dl j)))"
    if ex: "r = exact" and d: "0 \<le> dl j"
      and fin: "\<And>i. j \<le> i \<Longrightarrow> i \<le> k \<Longrightarrow> Delta ! i = Fin (dl i)"
      and den: "\<And>i. j < i \<Longrightarrow> i \<le> k \<Longrightarrow> mget F i j = Fin (f i) \<and> 1 + dl i * f i \<noteq> 0"
  proof -
    have "drift exact Delta vols F k j =
           Fin (\<Sum>i = j + 1..k. dl i * f i * vols ! (i - j - 1) * vols ! (k - j - 1) / (1 + dl i * f i))"
      by (rule drift_exact) (use assms(1) fin den in auto)
    moreover have "mget F k j = Fin (f k)" "Delta ! j = Fin (dl j)"
      using den[of k] fin[of j] assms(1) by simp_all
    ultimately show ?thesis
      using upd d unfolding ex by (simp only: evolve_exact)
  qed
  moreover have "\<forall>k' j'. j' < k' \<and> tri k' + j' = tri k + j \<longrightarrow> k' = k \<and> j' = j"
    using draw_index_inj[OF assms(1)] by blast
  ultimately show ?thesis
    using upd res(2) draw_index_bound[OF assms(1,2)] by simp
qed

theorem forward_rate_update_witness:
  "mget (fst (simulate_path exact (const_draws 1) (time_steps 3 (1 / 4)) [1 / 10, 1 / 10]
                (initial_forward_rates exact (time_steps 3 (1 / 4)) (discount_factors exact [0, 1, 1] 3) 3)
                3 0)) 1 0 = Fin 4
   \<and> mget (fst (simulate_path exact (const_draws 1) (time_steps 3 (1 / 4)) [1 / 10, 1 / 10]
                (initial_forward_rates exact (time_steps 3 (1 / 4)) (discount_factors exact [0, 1, 1] 3) 3)
                3 0)) 1 (0 + 1) = Fin (4 * exp (1 / 20))"
proof -
  define F where "F = fst (simulate_path exact (const_draws 1) (time_steps 3 (1 / 4)) [1 / 10, 1 / 10]
                (initial_forward_rates exact (time_steps 3 (1 / 4)) (discount_factors exact [0, 1, 1] 3) 3)
                3 0)"
  have F10: "mget F 1 0 = Fin 4"
    unfolding F_def by (simp add: model_defs exact_def eval_nat_numeral upt_rec)
  have H: "exact = exact \<and> (0::real) \<le> 1 / 4
      \<and> (\<forall>i. 0 \<le> i \<and> i \<le> 1 \<longrightarrow> time_steps 3 (1 / 4) ! i = Fin (1 / 4))
      \<and> (\<forall>i. 0 < i \<and> i \<le> 1 \<longrightarrow> mget F i 0 = Fin 4 \<and> 1 + 1 / 4 * 4 \<noteq> (0::real))"
    using F10 by (auto simp: time_steps_def less_Suc_eq le_Suc_eq)
  have "mget F 1 (0 + 1) = Fin (4 * exp (1 / 20))"
    using forward_rate_update[where j = 0 and k = 1 and steps = 3 and r = exact
        and dl = "\<lambda>i. 1 / 4" and Delta = "time_steps 3 (1 / 4)" and draws = "const_draws 1"
        and vols = "[1 / 10, 1 / 10]" and c = 0 and f = "\<lambda>i. 4"
        and ?F0.0 = "initial_forward_rates exact (time_steps 3 (1 / 4)) (discount_factors exact [0, 1, 1] 3) 3",
        folded F_def, THEN conjunct2, THEN conjunct2, THEN conjunct2, THEN conjunct2, THEN mp,
        OF _ _ H]
    by (simp add: const_draws_def real_sqrt_divide power2_eq_square)
  with F10 show ?thesis unfolding F_def by simp
qed

section \<open>The triangular region\<close>

text \<open>
  Claim C9. Let the two loop nests of a path run on an arbitrary allocated matrix \<open>A\<close> instead
  of the zero matrix. Every entry above the diagonal (\<open>k < j\<close>) is left as allocated, so
  nothing is written there. The entries on and below the diagonal of the result are the same
  for any other allocation \<open>A'\<close>, so nothing is read above the diagonal (nor is any allocated
  value read at all). One update changes the entry \<open>[k][j + 1]\<close> only, and the drift sum for
  it is determined by the entries \<open>F[i][j]\<close> with \<open>j + 1 \<le> i \<le> k\<close>.
\<close>

theorem triangular_access:
  assumes "shape (steps - 1) (steps - 1) A" and "shape (steps - 1) (steps - 1) A'"
  shows "(\<forall>k j. k < j \<longrightarrow>
            mget (fst (path_loops r draws Delta vols F0 steps (A, c))) k j = mget A k j)
     \<and> (\<forall>k j. j \<le> k \<and> k < steps - 1 \<longrightarrow>
            mget (fst (path_loops r draws Delta vols F0 steps (A, c))) k j =
            mget (fst (path_loops r draws Delta vols F0 steps (A', c))) k j)
     \<and> (\<forall>k j k' j'. k' \<noteq> k \<or> j' \<noteq> j + 1 \<longrightarrow>
            mget (fst (update_rate r draws Delta vols k j (A, c))) k' j' = mget A k' j')
     \<and> (\<forall>k j G G'. (\<forall>i. j + 1 \<le> i \<and> i \<le> k \<longrightarrow> mget G' i j = mget G i j) \<longrightarrow>
            drift r Delta vols G' k j = drift r Delta vols G k j)"
proof -
  obtain F cF where F: "path_loops r draws Delta vols F0 steps (A, c) = (F, cF)"
    by (cases "path_loops r draws Delta vols F0 steps (A, c)")
  obtain F' cF' where F': "path_loops r draws Delta vols F0 steps (A', c) = (F', cF')"
    by (cases "path_loops r draws Delta vols F0 steps (A', c)")
  note res = path_loops_result[OF assms(1) F]
  note res' = path_loops_result[OF assms(2) F']
  have a: "mget F k j = mget A k j" if "k < j" for k j
    using that by (rule res(5))
  have col0: "mget F i 0 = mget F' i 0" if "i < steps - 1" for i
    using res(4)[OF that] res'(4)[OF that] by simp
  have b: "mget F k j = mget F' k j" if "j \<le> k" "k < steps - 1" for k j
    using res(3) res'(3) col0 that by (rule lower_triangle_determined)
  have c: "mget (fst (update_rate r draws Delta vols k j (A, c))) k' j' = mget A k' j'"
    if "k' \<noteq> k \<or> j' \<noteq> j + 1" for k j k' j'
    using that by (simp add: update_rate_def Let_def mget_mset_other)
  have d: "drift r Delta vols G' k j = drift r Delta vols G k j"
    if "\<forall>i. j + 1 \<le> i \<and> i \<le> k \<longrightarrow> mget G' i j = mget G i j" for k j G G'
    by (rule drift_cong) (use that in simp)
  have 1: "\<forall>k j. k < j \<longrightarrow> mget F k j = mget A k j"
    by (intro allI impI) (rule a)
  have 2: "\<forall>k j. j \<le> k \<and> k < steps - 1 \<longrightarrow> mget F k j = mget F' k j"
    by (intro allI impI, elim conjE) (rule b)
  have 3: "\<forall>k j k' j'. k' \<noteq> k \<or> j' \<noteq> j + 1 \<longrightarrow>
            mget (fst (update_rate r draws Delta vols k j (A, c))) k' j' = mget A k' j'"
    by (intro allI impI) (rule c)
  have 4: "\<forall>k j G G'. (\<forall>i. j + 1 \<le> i \<and> i \<le> k \<longrightarrow> mget G' i j = mget G i j) \<longrightarrow>
            drift r Delta vols G' k j = drift r Delta vols G k j"
    by (intro allI impI) (rule d)
  show ?thesis
    unfolding F F' fst_conv by (intro conjI 1 2 3 4)
qed

theorem triangular_access_witness:
  "shape (3 - 1) (3 - 1) [[Fin 5, Fin 7], [Fin 2, Fin 3]] \<and> shape (3 - 1) (3 - 1) (zeros2 2 2)
   \<and> mget (fst (path_loops exact (const_draws 1) (time_steps 3 (1 / 4)) [1 / 10, 1 / 10]
                  (initial_forward_rates exact (time_steps 3 (1 / 4)) (discount_factors exact [0, 1, 1] 3) 3)
                  3 ([[Fin 5, Fin 7], [Fin 2, Fin 3]], 0))) 0 1 = Fin 7
   \<and> mget (fst (path_loops exact (const_draws 1) (time_steps 3 (1 / 4)) [1 / 10, 1 / 10]
                  (initial_forward_rates exact (time_steps 3 (1 / 4)) (discount_factors exact [0, 1, 1] 3) 3)
                  3 ([[Fin 5, Fin 7], [Fin 2, Fin 3]], 0))) 1 1
     = mget (fst (path_loops exact (const_draws 1) (time_steps 3 (1 / 4)) [1 / 10, 1 / 10]
                  (initial_forward_rates exact (time_steps 3 (1 / 4)) (discount_factors exact [0, 1, 1] 3) 3)
                  3 (zeros2 2 2, 0))) 1 1"
proof -
  have A: "shape (3 - 1) (3 - 1) [[Fin 5, Fin 7], [Fin 2, Fin 3]]"
    by (auto simp: shape_def less_Suc_eq numeral_2_eq_2)
  have Z: "shape (3 - 1) (3 - 1) (zeros2 2 2)"
    using shape_zeros2[of 2 2] by simp
  note t = triangular_access[OF A Z, where r = exact and draws = "const_draws 1"
      and Delta = "time_steps 3 (1 / 4)" and vols = "[1 / 10, 1 / 10]" and c = 0
      and ?F0.0 = "initial_forward_rates exact (time_steps 3 (1 / 4)) (discount_factors exact [0, 1, 1] 3) 3"]
  have "mget (fst (path_loops exact (const_draws 1) (time_steps 3 (1 / 4)) [1 / 10, 1 / 10]
                  (initial_forward_rates exact (time_steps 3 (1 / 4)) (discount_factors exact [0, 1, 1] 3) 3)
                  3 ([[Fin 5, Fin 7], [Fin 2, Fin 3]], 0))) 0 1 = Fin 7"
    using t[THEN conjunct1, rule_format, of 0 1] by (simp add: mget_def)
  moreover have "mget (fst (path_loops exact (const_draws 1) (time_steps 3 (1 / 4)) [1 / 10, 1 / 10]
                  (initial_forward_rates exact (time_steps 3 (1 / 4)) (discount_factors exact [0, 1, 1] 3) 3)
                  3 ([[Fin 5, Fin 7], [Fin 2, Fin 3]], 0))) 1 1
     = mget (fst (path_loops exact (const_draws 1) (time_steps 3 (1 / 4)) [1 / 10, 1 / 10]
                  (initial_forward_rates exact (time_steps 3 (1 / 4)) (discount_factors exact [0, 1, 1] 3) 3)
                  3 (zeros2 2 2, 0))) 1 1"
    using t[THEN conjunct2, THEN conjunct1, rule_format, of 1 1] by simp
  ultimately show ?thesis using A Z by blast
qed

section \<open>Zero volatility\<close>




end
